theory Spec2Isabelle
  imports Complex_Main "HOL-Library.Word"
begin

section \<open>The selector of nio4r, from ext/nio4r/selector.c\<close>

text \<open>
  The file is a Ruby C extension. Its functions read and write one
  \<^verbatim>\<open>struct NIO_Selector\<close>, three instance variables of the Ruby object
  (\<^verbatim>\<open>selectables\<close>, \<^verbatim>\<open>lock\<close>, \<^verbatim>\<open>lock_holder\<close>), the Monitor objects
  they create, and the outside world: libev, the wakeup pipe, Ruby's Mutex and the caller's
  block. The model keeps all of it in one record that every function takes and returns.
  What the functions ask of the outside world is appended to a trace, in program order.
\<close>

subsection \<open>Values\<close>

type_synonym thread = nat
type_synonym handle = nat
type_synonym ref = nat
type_synonym fd = int

text \<open>
  Modelled from the spec: the interest set of a registration (readable, writable). The
  selector passes it to the Monitor constructor and never looks inside.
\<close>

datatype interests = Readable | Writable | Read_write

text \<open>The Ruby values the selector's methods return.\<close>

datatype VALUE = Qnil | Qtrue | Qfalse | Fixnum int | Monitor ref | Ary "ref list"

text \<open>
  \<^verbatim>\<open>struct NIO_Monitor\<close> is declared in nio4r.h, which is not part of the sources at
  hand; the fields are the ones selector.c reads and writes. The struct and the Ruby
  object wrapping it are one heap cell, named by a \<^typ>\<open>ref\<close>. The field
  \<open>selector\<close> says whether the back-pointer to the selector is non-null.
\<close>

record NIO_Monitor =
  io :: handle
  interests :: interests
  selector :: bool
  revents :: int

text \<open>
  The caller's block, as \<^verbatim>\<open>rb_yield(monitor)\<close> sees it: called with a Monitor it
  returns or raises, and an exception leaves \<^verbatim>\<open>rb_yield\<close>, the engine and the run
  loop at once. The blocks covered are those that do not call a method of the selector
  they are yielded from. Such a call would be one by the thread that holds the lock, the
  second branch of \<^verbatim>\<open>NIO_Selector_synchronize\<close>; the methods below cover it on a
  state whose \<open>lock_holder\<close> is the caller, but it is not interleaved with the run loop.
\<close>

datatype exn = ArgumentError string | IOError string | ThreadError string | SystemCallError string

datatype visit = Visit_returns | Visit_raises exn

type_synonym block = "ref \<Rightarrow> visit"

text \<open>Calls that leave the file, and the engine's dispatch of a callback.\<close>

datatype effect =
    Ev_loop_destroy nat
  | Ev_timer_again nat rat
  | Ev_timer_start nat rat rat
  | Ev_timer_stop nat
  | Ev_loop_oneshot nat
  | Fire_wakeup
  | Fire_monitor ref int
  | Sys_write fd
  | Sys_read fd int
  | Sys_close fd
  | Monitor_close ref bool
  | Yield ref
  | Thread_schedule

text \<open>
  How a call ends: it returns a value, raises a Ruby exception, or takes the process down
  (a failed \<^verbatim>\<open>assert\<close>, a null or dangling pointer handed to libev). A call that
  never comes back (the Mutex is held by another thread, the engine has nothing more to
  report) is \<open>None\<close> in the functions that can block.
\<close>

datatype fault = Null_ev_loop | Dangling_monitor | Assert_failed string

datatype 'a outcome = Return 'a | Raise exn | Crash fault

text \<open>
  \<^verbatim>\<open>struct NIO_Selector\<close> (also declared in nio4r.h), the instance variables, the
  Monitor heap and the environment. The flags \<open>closed_flag\<close> (the field
  \<^verbatim>\<open>closed\<close>) and \<open>selecting\<close> and the counter are C ints; the number of watchers that fire in one iteration is bounded by the
  descriptor limit, far below \<open>2 ^ 31\<close>, so the counter is an unbounded integer here.
  \<open>ready_array\<close> is \<open>None\<close> for \<^verbatim>\<open>Qnil\<close>. \<open>clock\<close> is the time the engine
  reported last. \<open>pipe_capacity\<close> is the number of bytes the wakeup pipe holds before
  a write to it has to wait (65536 on Linux): \<^verbatim>\<open>NIO_Selector_allocate\<close> makes only the
  read end non-blocking.
\<close>

record selector_state =
  ev_loop :: "nat option"
  wakeup_reader :: fd
  wakeup_writer :: fd
  closed_flag :: int
  selecting :: int
  ready_count :: int
  ready_array :: "ref list option"
  selectables :: "handle \<rightharpoonup> ref"
  lock :: "thread option"
  lock_holder :: "thread option"
  monitors :: "ref \<rightharpoonup> NIO_Monitor"
  next_ref :: ref
  wakeup_pipe :: "8 word list"
  pipe_capacity :: nat
  clock :: rat
  trace :: "effect list"

definition emit :: "effect \<Rightarrow> selector_state \<Rightarrow> selector_state" where
  "emit e w = w\<lparr>trace := trace w @ [e]\<rparr>"

subsection \<open>Allocation, shutdown, close\<close>

text \<open>
  \<^verbatim>\<open>NIO_Selector_allocate\<close>: \<open>fds\<close> is what \<^verbatim>\<open>pipe\<close> gave (\<open>None\<close> when it
  failed) and \<open>cap\<close> the capacity of that pipe, \<open>nonblock\<close> whether \<^verbatim>\<open>fcntl\<close>
  succeeded on the read end, \<open>l\<close> the loop of \<^verbatim>\<open>ev_loop_new\<close>.
  \<^verbatim>\<open>NIO_Selector_initialize\<close> then sets the table and the Mutex.
\<close>

definition NIO_Selector_allocate ::
    "(fd \<times> fd) option \<Rightarrow> nat \<Rightarrow> bool \<Rightarrow> nat \<Rightarrow> selector_state outcome" where
  "NIO_Selector_allocate fds cap nonblock l =
     (case fds of
        None \<Rightarrow> Raise (SystemCallError ''pipe'')
      | Some (r, wr) \<Rightarrow>
          if \<not> nonblock then Raise (SystemCallError ''fcntl'')
          else Return \<lparr>ev_loop = Some l, wakeup_reader = r, wakeup_writer = wr,
                 closed_flag = 0, selecting = 0, ready_count = 0, ready_array = None,
                 selectables = Map.empty, lock = None, lock_holder = None,
                 monitors = Map.empty, next_ref = 0, wakeup_pipe = [], pipe_capacity = cap,
                 clock = 0, trace = []\<rparr>)"

definition NIO_Selector_initialize :: "selector_state \<Rightarrow> VALUE \<times> selector_state" where
  "NIO_Selector_initialize w = (Qnil, w\<lparr>selectables := Map.empty, lock := None\<rparr>)"

definition NIO_Selector_shutdown :: "selector_state \<Rightarrow> selector_state" where
  "NIO_Selector_shutdown w =
     (let w1 = (case ev_loop w of
                  Some l \<Rightarrow> (emit (Ev_loop_destroy l) w)\<lparr>ev_loop := None\<rparr>
                | None \<Rightarrow> w)
      in if closed_flag w1 \<noteq> 0 then w1
         else (emit (Sys_close (wakeup_writer w1)) (emit (Sys_close (wakeup_reader w1)) w1))
                \<lparr>closed_flag := 1\<rparr>)"

definition NIO_Selector_close :: "selector_state \<Rightarrow> VALUE outcome \<times> selector_state" where
  "NIO_Selector_close w = (Return Qnil, NIO_Selector_shutdown w)"

definition NIO_Selector_closed :: "selector_state \<Rightarrow> VALUE" where
  "NIO_Selector_closed w = (if closed_flag w \<noteq> 0 then Qtrue else Qfalse)"

subsection \<open>The wakeup pipe\<close>

text \<open>
  \<^verbatim>\<open>write(wakeup_writer, "\0", 1)\<close>: one zero byte joins the pipe. Only the read end
  was made non-blocking, so on a full pipe the write waits for a reader; with no other
  thread running the call does not come back (\<open>None\<close>). The result of \<^verbatim>\<open>write\<close> is
  not looked at by the source.
\<close>

definition NIO_Selector_wakeup :: "selector_state \<Rightarrow> (VALUE outcome \<times> selector_state) option" where
  "NIO_Selector_wakeup w =
     (if closed_flag w \<noteq> 0 then Some (Raise (IOError ''selector is closed''), w)
      else if pipe_capacity w \<le> length (wakeup_pipe w) then None
      else Some (Return Qnil,
                 (emit (Sys_write (wakeup_writer w)) w)\<lparr>wakeup_pipe := wakeup_pipe w @ [0]\<rparr>))"

text \<open>
  \<^verbatim>\<open>read(wakeup_reader, buffer, count)\<close> on the non-blocking read end: \<open>-1\<close> when
  the pipe is empty, else the number of bytes taken, at most \<open>count\<close>.
\<close>

definition sys_read :: "nat \<Rightarrow> selector_state \<Rightarrow> int \<times> selector_state" where
  "sys_read count w =
     (if wakeup_pipe w = [] then (- 1, emit (Sys_read (wakeup_reader w) (- 1)) w)
      else (let n = min count (length (wakeup_pipe w))
            in (int n, (emit (Sys_read (wakeup_reader w) (int n)) w)
                         \<lparr>wakeup_pipe := drop n (wakeup_pipe w)\<rparr>)))"

text \<open>\<^verbatim>\<open>while(read(selector->wakeup_reader, buffer, 128) > 0);\<close>\<close>

function drain :: "selector_state \<Rightarrow> selector_state" where
  "drain w = (case sys_read 128 w of (n, w') \<Rightarrow> if n > 0 then drain w' else w')"
  by pat_completeness auto
termination
  by (relation "measure (\<lambda>w. length (wakeup_pipe w))")
     (auto simp: sys_read_def emit_def Let_def split: if_splits)

declare drain.simps [simp del]

definition NIO_Selector_wakeup_callback :: "selector_state \<Rightarrow> selector_state" where
  "NIO_Selector_wakeup_callback w = drain (w\<lparr>selecting := 0\<rparr>)"

subsection \<open>Readiness callbacks and the engine\<close>

text \<open>
  \<^verbatim>\<open>NIO_Selector_monitor_callback\<close>. libev hands over the watcher whose \<^verbatim>\<open>data\<close>
  points to the Monitor; \<open>blk\<close> is the block of the running \<^verbatim>\<open>select\<close>, \<open>None\<close>
  when \<^verbatim>\<open>rb_block_given_p()\<close> is false. When the block raises, the exception leaves
  the callback (and everything above it up to \<^verbatim>\<open>rb_ensure\<close>) at the yield.
\<close>

definition NIO_Selector_monitor_callback ::
    "block option \<Rightarrow> ref \<Rightarrow> int \<Rightarrow> selector_state \<Rightarrow> unit outcome \<times> selector_state" where
  "NIO_Selector_monitor_callback blk r ev w =
     (case monitors w r of
        None \<Rightarrow> (Crash Dangling_monitor, w)
      | Some m \<Rightarrow>
          if \<not> selector m then (Crash (Assert_failed ''selector != 0''), w)
          else (let w1 = w\<lparr>ready_count := ready_count w + 1\<rparr>;
                    w2 = w1\<lparr>monitors := (monitors w1)(r \<mapsto> m\<lparr>revents := ev\<rparr>)\<rparr>
                in case blk of
                     Some f \<Rightarrow>
                       (case f r of
                          Visit_returns \<Rightarrow> (Return (), emit (Yield r) w2)
                        | Visit_raises e \<Rightarrow> (Raise e, emit (Yield r) w2))
                   | None \<Rightarrow>
                       (case ready_array w2 of
                          None \<Rightarrow> (Crash (Assert_failed ''selector->ready_array != Qnil''), w2)
                        | Some xs \<Rightarrow> (Return (), w2\<lparr>ready_array := Some (xs @ [r])\<rparr>))))"

text \<open>
  Modelled from the spec: the notification engine (libev) is not part of the sources. One
  run of \<^verbatim>\<open>ev_loop(loop, EVLOOP_ONESHOT)\<close> invokes the callback of each source that is
  ready: the wakeup watcher, started on the read end for \<^verbatim>\<open>EV_READ\<close> by
  \<^verbatim>\<open>NIO_Selector_allocate\<close>, when the pipe holds a byte, and the watcher of every
  Monitor the environment reports ready in this iteration, with the flags observed. An
  \<open>iteration\<close> is what the environment reports: the ready watchers and the time the
  loop has when it comes back, kept in \<open>clock\<close> for \<^verbatim>\<open>ev_now\<close>. The model runs
  the wakeup callback first and then the Monitor callbacks in the order reported; the two
  kinds of callback write different fields.
\<close>

record iteration =
  fired :: "(ref \<times> int) list"
  now :: rat

fun dispatch :: "block option \<Rightarrow> (ref \<times> int) list \<Rightarrow> selector_state \<Rightarrow> unit outcome \<times> selector_state" where
  "dispatch blk [] w = (Return (), w)"
| "dispatch blk ((r, ev) # rest) w =
     (case NIO_Selector_monitor_callback blk r ev (emit (Fire_monitor r ev) w) of
        (Return u, w') \<Rightarrow> dispatch blk rest w'
      | (Raise e, w') \<Rightarrow> (Raise e, w')
      | (Crash f, w') \<Rightarrow> (Crash f, w'))"

definition engine_iteration ::
    "block option \<Rightarrow> nat \<Rightarrow> iteration \<Rightarrow> selector_state \<Rightarrow> unit outcome \<times> selector_state" where
  "engine_iteration blk l it w =
     (let w1 = emit (Ev_loop_oneshot l) w;
          w2 = (if wakeup_pipe w1 \<noteq> [] then NIO_Selector_wakeup_callback (emit Fire_wakeup w1)
                else w1)
      in case dispatch blk (fired it) w2 of (out, w3) \<Rightarrow> (out, w3\<lparr>clock := now it\<rparr>))"

subsection \<open>Double arithmetic\<close>

text \<open>
  The timeout of \<^verbatim>\<open>select\<close> is the number the caller passed and the times of the
  engine are what the environment reports, rationals here; every finite double is one.
  \<^verbatim>\<open>NUM2DBL\<close> and \<^verbatim>\<open>ev_now\<close> give the double nearest to them. The sum at
  \<^verbatim>\<open>NUM2DBL(timeout) + 0.0001\<close> and the difference at
  \<^verbatim>\<open>ev_now(...) - started_at\<close> are operations on doubles: the exact result rounded to
  53 significant bits, ties to the even mantissa. \<open>bin64\<close> is that rounding; the range
  of the exponent is not bounded here (no overflow, no subnormal numbers). The constants
  \<^verbatim>\<open>0.0001\<close> and \<^verbatim>\<open>0.01\<close> of the source are the doubles \<open>bin64 (1 / 10000)\<close> and
  \<open>bin64 (1 / 100)\<close>.
\<close>

function bitlen :: "int \<Rightarrow> int" where
  "bitlen n = (if 0 < n then 1 + bitlen (n div 2) else 0)"
  by pat_completeness auto
termination
  by (relation "measure nat") auto

declare bitlen.simps [simp del]

definition pow2 :: "int \<Rightarrow> rat" where
  "pow2 k = (if 0 \<le> k then 2 ^ nat k else 1 / 2 ^ nat (- k))"

definition ilog2 :: "rat \<Rightarrow> int" where
  "ilog2 x = (case quotient_of x of
                (p, q) \<Rightarrow>
                  (let k = bitlen p - bitlen q
                   in if pow2 k \<le> x then k else k - 1))"

definition bin64 :: "rat \<Rightarrow> rat" where
  "bin64 x =
     (if x = 0 then 0
      else (let u = pow2 (ilog2 \<bar>x\<bar> - 52);
                q = x / u;
                f = \<lfloor>q\<rfloor>;
                d = q - of_int f;
                r = (if d < 1 / 2 then f else if 1 / 2 < d then f + 1
                     else if even f then f else f + 1)
            in of_int r * u))"

definition NUM2DBL :: "rat \<Rightarrow> rat" where
  "NUM2DBL x = bin64 x"

definition ev_now :: "selector_state \<Rightarrow> rat" where
  "ev_now w = bin64 (clock w)"

subsection \<open>The run loop\<close>

text \<open>
  The preprocessor leaves two programs. With \<^verbatim>\<open>HAVE_RB_THREAD_BLOCKING_REGION\<close> the
  timeout is a libev timer and the engine runs once. With neither that macro nor
  \<^verbatim>\<open>HAVE_RB_THREAD_ALONE\<close> the branch \<^verbatim>\<open>if(0)\<close> is dead and the loop polls every
  10 ms. (With \<^verbatim>\<open>HAVE_RB_THREAD_ALONE\<close> alone the variable \<^verbatim>\<open>started_at\<close> is used
  without a declaration.)
\<close>

datatype build = Blocking_region | Green_threads

text \<open>
  \<^verbatim>\<open>while(selector->selecting && !selector->ready_count)\<close>, one element of the
  environment's list per \<^verbatim>\<open>ev_loop\<close>. When the list ends while the loop goes on, the
  call does not come back.
\<close>

fun busy_wait ::
    "block option \<Rightarrow> nat \<Rightarrow> rat option \<Rightarrow> rat \<Rightarrow> iteration list \<Rightarrow> selector_state
      \<Rightarrow> (unit outcome \<times> selector_state) option" where
  "busy_wait blk l timeout started_at [] w =
     (if selecting w \<noteq> 0 \<and> ready_count w = 0 then None else Some (Return (), w))"
| "busy_wait blk l timeout started_at (it # rest) w =
     (if selecting w \<noteq> 0 \<and> ready_count w = 0 then
        (case engine_iteration blk l it w of
           (Return u, w1) \<Rightarrow>
             (let w2 = emit Thread_schedule w1
              in case timeout of
                   None \<Rightarrow> busy_wait blk l timeout started_at rest w2
                 | Some t \<Rightarrow>
                     if bin64 (ev_now w2 - started_at) \<ge> NUM2DBL t then Some (Return (), w2)
                     else busy_wait blk l timeout started_at rest w2)
         | (Raise e, w1) \<Rightarrow> Some (Raise e, w1)
         | (Crash f, w1) \<Rightarrow> Some (Crash f, w1))
      else Some (Return (), w))"

definition run_blocking ::
    "block option \<Rightarrow> nat \<Rightarrow> rat option \<Rightarrow> iteration list \<Rightarrow> selector_state
      \<Rightarrow> (unit outcome \<times> selector_state) option" where
  "run_blocking blk l timeout its w =
     (let w1 = (case timeout of
                  Some t \<Rightarrow> emit (Ev_timer_again l (bin64 (NUM2DBL t + bin64 (1 / 10000)))) w
                | None \<Rightarrow> emit (Ev_timer_stop l) w)
      in case its of [] \<Rightarrow> None | it # rest \<Rightarrow> Some (engine_iteration blk l it w1))"

definition run_busy_wait ::
    "block option \<Rightarrow> nat \<Rightarrow> rat option \<Rightarrow> iteration list \<Rightarrow> selector_state
      \<Rightarrow> (unit outcome \<times> selector_state) option" where
  "run_busy_wait blk l timeout its w =
     (let started_at = ev_now w;
          w1 = emit (Ev_timer_start l (bin64 (1 / 100)) (bin64 (1 / 100))) w
      in case busy_wait blk l timeout started_at its w1 of
           None \<Rightarrow> None
         | Some (Return u, w2) \<Rightarrow> Some (Return (), emit (Ev_timer_stop l) w2)
         | Some (Raise e, w2) \<Rightarrow> Some (Raise e, w2)
         | Some (Crash f, w2) \<Rightarrow> Some (Crash f, w2))"

text \<open>
  \<^verbatim>\<open>NIO_Selector_run\<close>. Every path hands \<^verbatim>\<open>selector->ev_loop\<close> to libev first
  thing after \<^verbatim>\<open>selecting = 1\<close>; libev dereferences it.
\<close>

definition NIO_Selector_run ::
    "build \<Rightarrow> block option \<Rightarrow> rat option \<Rightarrow> iteration list \<Rightarrow> selector_state
      \<Rightarrow> (int outcome \<times> selector_state) option" where
  "NIO_Selector_run b blk timeout its w =
     (let w1 = w\<lparr>selecting := 1\<rparr>
      in case ev_loop w1 of
           None \<Rightarrow> Some (Crash Null_ev_loop, w1)
         | Some l \<Rightarrow>
             (case (case b of
                      Blocking_region \<Rightarrow> run_blocking blk l timeout its w1
                    | Green_threads \<Rightarrow> run_busy_wait blk l timeout its w1) of
                None \<Rightarrow> None
              | Some (Return u, w2) \<Rightarrow>
                  Some (Return (ready_count w2), w2\<lparr>selecting := 0, ready_count := 0\<rparr>)
              | Some (Raise e, w2) \<Rightarrow> Some (Raise e, w2)
              | Some (Crash f, w2) \<Rightarrow> Some (Crash f, w2)))"

definition NIO_Selector_select_synchronized ::
    "build \<Rightarrow> block option \<Rightarrow> rat option \<Rightarrow> iteration list \<Rightarrow> selector_state
      \<Rightarrow> (VALUE outcome \<times> selector_state) option" where
  "NIO_Selector_select_synchronized b blk timeout its w =
     (let w1 = (if blk = None then w\<lparr>ready_array := Some []\<rparr> else w)
      in case NIO_Selector_run b blk timeout its w1 of
           None \<Rightarrow> None
         | Some (Return ready, w2) \<Rightarrow>
             if ready > 0 then
               if blk \<noteq> None then Some (Return (Fixnum ready), w2)
               else Some (Return (case ready_array w2 of Some xs \<Rightarrow> Ary xs | None \<Rightarrow> Qnil),
                          w2\<lparr>ready_array := None\<rparr>)
             else Some (Return Qnil, w2\<lparr>ready_array := None\<rparr>)
         | Some (Raise e, w2) \<Rightarrow> Some (Raise e, w2)
         | Some (Crash f, w2) \<Rightarrow> Some (Crash f, w2))"

subsection \<open>The registration table\<close>

text \<open>
  Modelled from the spec: the Monitor class (monitor.c) is not part of the sources; a
  Monitor is constructible from the handle, the interests and the owning selector.
  \<^verbatim>\<open>rb_class_new_instance(3, monitor_args, cNIO_Monitor)\<close> takes the next free cell.
\<close>

definition Monitor_new :: "handle \<Rightarrow> interests \<Rightarrow> selector_state \<Rightarrow> ref \<times> selector_state" where
  "Monitor_new h i w =
     (next_ref w,
      w\<lparr>monitors := (monitors w)(next_ref w \<mapsto> \<lparr>io = h, interests = i, selector = True, revents = 0\<rparr>),
        next_ref := Suc (next_ref w)\<rparr>)"

definition NIO_Selector_register_synchronized ::
    "handle \<Rightarrow> interests \<Rightarrow> selector_state \<Rightarrow> VALUE outcome \<times> selector_state" where
  "NIO_Selector_register_synchronized h i w =
     (case selectables w h of
        Some m \<Rightarrow> (Raise (ArgumentError ''this IO is already registered with selector''), w)
      | None \<Rightarrow>
          (case Monitor_new h i w of
             (m, w1) \<Rightarrow> (Return (Monitor m), w1\<lparr>selectables := (selectables w1)(h \<mapsto> m)\<rparr>)))"

text \<open>
  \<^verbatim>\<open>rb_hash_delete\<close> gives the stored Monitor or \<^verbatim>\<open>Qnil\<close>;
  \<^verbatim>\<open>rb_funcall(monitor, rb_intern("close"), 1, Qfalse)\<close> leaves the file.
\<close>

definition NIO_Selector_deregister_synchronized ::
    "handle \<Rightarrow> selector_state \<Rightarrow> VALUE outcome \<times> selector_state" where
  "NIO_Selector_deregister_synchronized h w =
     (case selectables w h of
        None \<Rightarrow> (Return Qnil, w)
      | Some m \<Rightarrow>
          (Return (Monitor m), emit (Monitor_close m False) (w\<lparr>selectables := (selectables w)(h := None)\<rparr>)))"

definition NIO_Selector_is_registered :: "handle \<Rightarrow> selector_state \<Rightarrow> VALUE outcome \<times> selector_state" where
  "NIO_Selector_is_registered h w = (Return (if h \<in> dom (selectables w) then Qtrue else Qfalse), w)"

subsection \<open>The reentrant lock\<close>

text \<open>
  Ruby's \<^verbatim>\<open>Mutex#lock\<close> and \<^verbatim>\<open>Mutex#unlock\<close>, for the thread \<open>cur\<close>: locking a
  free Mutex takes it, locking one's own raises, locking another thread's waits;
  unlocking a Mutex that is not one's own raises.
\<close>

definition Mutex_lock :: "thread \<Rightarrow> selector_state \<Rightarrow> (unit outcome \<times> selector_state) option" where
  "Mutex_lock cur w =
     (case lock w of
        None \<Rightarrow> Some (Return (), w\<lparr>lock := Some cur\<rparr>)
      | Some t \<Rightarrow> if t = cur then Some (Raise (ThreadError ''deadlock; recursive locking''), w)
                  else None)"

definition Mutex_unlock :: "thread \<Rightarrow> selector_state \<Rightarrow> unit outcome \<times> selector_state" where
  "Mutex_unlock cur w =
     (if lock w = Some cur then (Return (), w\<lparr>lock := None\<rparr>)
      else (Raise (ThreadError ''Attempt to unlock a mutex which is not locked by this thread''), w))"

definition NIO_Selector_unlock :: "thread \<Rightarrow> selector_state \<Rightarrow> unit outcome \<times> selector_state" where
  "NIO_Selector_unlock cur w = Mutex_unlock cur (w\<lparr>lock_holder := None\<rparr>)"

text \<open>
  \<^verbatim>\<open>rb_ensure(b_proc, data1, e_proc, data2)\<close>: \<open>e_proc\<close> runs whether \<open>b_proc\<close>
  returns or raises, and what \<open>b_proc\<close> did is then passed on.
\<close>

definition rb_ensure ::
    "(selector_state \<Rightarrow> ('a outcome \<times> selector_state) option)
      \<Rightarrow> (selector_state \<Rightarrow> unit outcome \<times> selector_state)
      \<Rightarrow> selector_state \<Rightarrow> ('a outcome \<times> selector_state) option" where
  "rb_ensure b_proc e_proc w =
     (case b_proc w of
        None \<Rightarrow> None
      | Some (Crash f, w1) \<Rightarrow> Some (Crash f, w1)
      | Some (Return v, w1) \<Rightarrow>
          (case e_proc w1 of
             (Return u, w2) \<Rightarrow> Some (Return v, w2)
           | (Raise e, w2) \<Rightarrow> Some (Raise e, w2)
           | (Crash f, w2) \<Rightarrow> Some (Crash f, w2))
      | Some (Raise e0, w1) \<Rightarrow>
          (case e_proc w1 of
             (Return u, w2) \<Rightarrow> Some (Raise e0, w2)
           | (Raise e, w2) \<Rightarrow> Some (Raise e, w2)
           | (Crash f, w2) \<Rightarrow> Some (Crash f, w2)))"

text \<open>
  What a C function declared to return \<^verbatim>\<open>VALUE\<close> gives its caller: the operand of the
  \<^verbatim>\<open>return\<close> statement it ran, or nothing determinate when control reached the closing
  brace without one.
\<close>

datatype 'a retval = Retval 'a | Indeterminate

definition map_outcome :: "('a \<Rightarrow> 'b) \<Rightarrow> 'a outcome \<Rightarrow> 'b outcome" where
  "map_outcome g out = (case out of Return v \<Rightarrow> Return (g v) | Raise e \<Rightarrow> Raise e | Crash f \<Rightarrow> Crash f)"

text \<open>
  \<^verbatim>\<open>NIO_Selector_synchronize\<close>. The first branch is
  \<^verbatim>\<open>return rb_ensure(func, (VALUE)args, NIO_Selector_unlock, self);\<close>, the second is
  the statement \<^verbatim>\<open>func(args);\<close> followed by the end of the function.
\<close>

definition NIO_Selector_synchronize ::
    "thread \<Rightarrow> (selector_state \<Rightarrow> ('a outcome \<times> selector_state) option) \<Rightarrow> selector_state
      \<Rightarrow> ('a retval outcome \<times> selector_state) option" where
  "NIO_Selector_synchronize cur func w =
     (if lock_holder w \<noteq> Some cur then
        (case Mutex_lock cur w of
           None \<Rightarrow> None
         | Some (Return u, w1) \<Rightarrow>
             map_option (\<lambda>(out, w3). (map_outcome Retval out, w3))
               (rb_ensure func (NIO_Selector_unlock cur) (w1\<lparr>lock_holder := Some cur\<rparr>))
         | Some (Raise e, w1) \<Rightarrow> Some (Raise e, w1)
         | Some (Crash f, w1) \<Rightarrow> Some (Crash f, w1))
      else
        (case func w of
           None \<Rightarrow> None
         | Some (Return v, w1) \<Rightarrow> Some (Return Indeterminate, w1)
         | Some (Raise e, w1) \<Rightarrow> Some (Raise e, w1)
         | Some (Crash f, w1) \<Rightarrow> Some (Crash f, w1)))"

subsection \<open>The methods\<close>

definition NIO_Selector_register ::
    "thread \<Rightarrow> handle \<Rightarrow> interests \<Rightarrow> selector_state \<Rightarrow> (VALUE retval outcome \<times> selector_state) option" where
  "NIO_Selector_register cur h i w =
     NIO_Selector_synchronize cur (\<lambda>s. Some (NIO_Selector_register_synchronized h i s)) w"

definition NIO_Selector_deregister ::
    "thread \<Rightarrow> handle \<Rightarrow> selector_state \<Rightarrow> (VALUE retval outcome \<times> selector_state) option" where
  "NIO_Selector_deregister cur h w =
     NIO_Selector_synchronize cur (\<lambda>s. Some (NIO_Selector_deregister_synchronized h s)) w"

text \<open>
  \<^verbatim>\<open>NIO_Selector_select\<close>: \<open>timeout\<close> is \<open>None\<close> for \<^verbatim>\<open>Qnil\<close> (also when the
  argument is left out), \<open>its\<close> is what the engine will report while the call runs.
\<close>

definition NIO_Selector_select ::
    "build \<Rightarrow> thread \<Rightarrow> rat option \<Rightarrow> block option \<Rightarrow> iteration list \<Rightarrow> selector_state
      \<Rightarrow> (VALUE retval outcome \<times> selector_state) option" where
  "NIO_Selector_select b cur timeout blk its w =
     (case timeout of
        Some t \<Rightarrow>
          if NUM2DBL t < 0 then Some (Raise (ArgumentError ''time interval must be positive''), w)
          else NIO_Selector_synchronize cur (NIO_Selector_select_synchronized b blk timeout its) w
      | None \<Rightarrow>
          NIO_Selector_synchronize cur (NIO_Selector_select_synchronized b blk timeout its) w)"

subsection \<open>Sequences of calls\<close>

text \<open>
  A call of a method by a thread, from outside any other call. \<open>exec_all\<close> runs a list
  of them; it stops when one does not come back or the process is gone.
\<close>

datatype call =
    Register thread handle interests
  | Deregister thread handle
  | Is_registered handle
  | Select thread "rat option" "block option" "iteration list"
  | Wakeup
  | Close
  | Closed_p

definition lift_plain :: "VALUE outcome \<times> selector_state \<Rightarrow> (VALUE retval outcome \<times> selector_state) option" where
  "lift_plain r = Some (map_outcome Retval (fst r), snd r)"

fun exec :: "build \<Rightarrow> call \<Rightarrow> selector_state \<Rightarrow> (VALUE retval outcome \<times> selector_state) option" where
  "exec b (Register cur h i) w = NIO_Selector_register cur h i w"
| "exec b (Deregister cur h) w = NIO_Selector_deregister cur h w"
| "exec b (Is_registered h) w = lift_plain (NIO_Selector_is_registered h w)"
| "exec b (Select cur timeout blk its) w = NIO_Selector_select b cur timeout blk its w"
| "exec b Wakeup w = (case NIO_Selector_wakeup w of None \<Rightarrow> None | Some r \<Rightarrow> lift_plain r)"
| "exec b Close w = lift_plain (NIO_Selector_close w)"
| "exec b Closed_p w = lift_plain (Return (NIO_Selector_closed w), w)"

fun exec_all :: "build \<Rightarrow> call list \<Rightarrow> selector_state \<Rightarrow> selector_state option" where
  "exec_all b [] w = Some w"
| "exec_all b (c # cs) w =
     (case exec b c w of
        None \<Rightarrow> None
      | Some (Crash f, w') \<Rightarrow> None
      | Some (Return v, w') \<Rightarrow> exec_all b cs w'
      | Some (Raise e, w') \<Rightarrow> exec_all b cs w')"

text \<open>\<^verbatim>\<open>NIO::Selector.new\<close>: allocate, then initialize.\<close>

definition Selector_new ::
    "(fd \<times> fd) option \<Rightarrow> nat \<Rightarrow> bool \<Rightarrow> nat \<Rightarrow> selector_state outcome" where
  "Selector_new fds cap nonblock l =
     map_outcome (\<lambda>w. snd (NIO_Selector_initialize w)) (NIO_Selector_allocate fds cap nonblock l)"

subsection \<open>Notions used in the statements\<close>

text \<open>
  The fields a run of the loop leaves alone, and the fields the registration methods
  leave alone.
\<close>

definition run_frame ::
    "selector_state \<Rightarrow> nat option \<times> fd \<times> fd \<times> int \<times> (handle \<rightharpoonup> ref) \<times> thread option \<times> thread option \<times> ref" where
  "run_frame w = (ev_loop w, wakeup_reader w, wakeup_writer w, closed_flag w, selectables w,
                  lock w, lock_holder w, next_ref w)"

definition reg_frame ::
    "selector_state \<Rightarrow> nat option \<times> fd \<times> fd \<times> int \<times> int \<times> int \<times> ref list option \<times> 8 word list \<times> rat" where
  "reg_frame w = (ev_loop w, wakeup_reader w, wakeup_writer w, closed_flag w, selecting w,
                  ready_count w, ready_array w, wakeup_pipe w, clock w)"

text \<open>
  The selector that \<^verbatim>\<open>NIO::Selector.new\<close> gives when \<^verbatim>\<open>pipe\<close> returns the
  descriptors 3 and 4 of a pipe of 65536 bytes and \<^verbatim>\<open>ev_loop_new\<close> the loop 1; the
  examples start from it.
\<close>

definition fresh_selector :: selector_state where
  "fresh_selector =
     \<lparr>ev_loop = Some 1, wakeup_reader = 3, wakeup_writer = 4,
      closed_flag = 0, selecting = 0, ready_count = 0, ready_array = None,
      selectables = Map.empty, lock = None, lock_holder = None,
      monitors = Map.empty, next_ref = 0, wakeup_pipe = [], pipe_capacity = 65536,
      clock = 0, trace = []\<rparr>"

text \<open>
  Readings of the trace: the Monitors whose callback the engine invoked, the Monitors
  yielded to the block, the timer calls, the invocations of the wakeup callback.
\<close>

fun monitor_of :: "effect \<Rightarrow> ref list" where
  "monitor_of (Fire_monitor r ev) = [r]"
| "monitor_of e = []"

fun yield_of :: "effect \<Rightarrow> ref list" where
  "yield_of (Yield r) = [r]"
| "yield_of e = []"


fun wakeup_of :: "effect \<Rightarrow> unit list" where
  "wakeup_of Fire_wakeup = [()]"
| "wakeup_of e = []"

definition proj :: "(effect \<Rightarrow> 'a list) \<Rightarrow> selector_state \<Rightarrow> 'a list" where
  "proj g w = concat (map g (trace w))"

text \<open>The handle a Monitor cell was made for.\<close>

definition handle_of :: "selector_state \<Rightarrow> ref \<Rightarrow> handle option" where
  "handle_of w r = map_option io (monitors w r)"

text \<open>The block raised \<open>e\<close> on some Monitor.\<close>

definition raised_by :: "block option \<Rightarrow> exn \<Rightarrow> bool" where
  "raised_by blk e = (\<exists>f r. blk = Some f \<and> f r = Visit_raises e)"

text \<open>What one readiness callback adds to the trace.\<close>

definition cb_events :: "bool \<Rightarrow> ref \<times> int \<Rightarrow> effect list" where
  "cb_events bg p = Fire_monitor (fst p) (snd p) # (if bg then [Yield (fst p)] else [])"

text \<open>
  No count and no array are left pending from a \<^verbatim>\<open>select\<close>, and no thread is inside
  the lock.
\<close>

definition idle :: "selector_state \<Rightarrow> bool" where
  "idle w = (ready_count w = 0 \<and> ready_array w = None \<and> lock w = None \<and> lock_holder w = None)"

text \<open>
  \<open>n\<close> calls of \<^verbatim>\<open>wakeup\<close> in a row, with no \<^verbatim>\<open>select\<close> in between; \<open>None\<close> when
  one of them does not come back.
\<close>

fun wakeups :: "nat \<Rightarrow> selector_state \<Rightarrow> selector_state option" where
  "wakeups 0 w = Some w"
| "wakeups (Suc n) w =
     (case NIO_Selector_wakeup w of
        None \<Rightarrow> None
      | Some (out, w1) \<Rightarrow> wakeups n w1)"

text \<open>The example selector with the handles 7 and 8 registered.\<close>

definition two_monitors :: selector_state where
  "two_monitors =
     fresh_selector\<lparr>selectables := [7 \<mapsto> 0, 8 \<mapsto> 1],
       monitors := [0 \<mapsto> \<lparr>io = 7, interests = Readable, selector = True, revents = 0\<rparr>,
                    1 \<mapsto> \<lparr>io = 8, interests = Writable, selector = True, revents = 0\<rparr>],
       next_ref := 2\<rparr>"

text \<open>
  What a stretch of the run loop has accumulated from \<open>w\<close> to \<open>w'\<close>: the Monitors
  \<open>rs\<close> were reported ready, counted, and (without a block) appended to the array.
\<close>

definition accum :: "bool \<Rightarrow> selector_state \<Rightarrow> selector_state \<Rightarrow> ref list \<Rightarrow> bool" where
  "accum bg w w' rs =
     (proj monitor_of w' = proj monitor_of w @ rs
      \<and> ready_count w' = ready_count w + int (length rs)
      \<and> ready_array w' = (if bg then ready_array w else map_option (\<lambda>xs. xs @ rs) (ready_array w)))"

section \<open>Properties\<close>

subsection \<open>Rounding to a double keeps the sign\<close>

lemma pow2_powi: "pow2 k = 2 powi k"
  by (simp add: pow2_def power_int_def field_simps)

lemma pow2_pos: "0 < pow2 k"
  by (simp add: pow2_powi)

lemma pow2_mono: "a \<le> b \<Longrightarrow> pow2 a \<le> pow2 b"
  by (simp add: pow2_powi power_int_increasing)

lemma bitlen_bounds: "0 < n \<Longrightarrow> 0 < bitlen n \<and> 2 ^ nat (bitlen n - 1) \<le> n \<and> n < 2 ^ nat (bitlen n)"
proof (induction n rule: bitlen.induct)
  case (1 n)
  show ?case
  proof (cases "0 < n div 2")
    case False
    with 1(2) have "n = 1" by linarith
    then show ?thesis by (simp add: bitlen.simps[of 1] bitlen.simps[of 0])
  next
    case True
    from 1(1)[OF 1(2) True] have b: "0 < bitlen (n div 2)"
      and lo: "2 ^ nat (bitlen (n div 2) - 1) \<le> n div 2"
      and hi: "n div 2 < 2 ^ nat (bitlen (n div 2))" by simp_all
    have bl: "bitlen n = 1 + bitlen (n div 2)" using 1(2) by (subst bitlen.simps) simp
    from b have n1: "nat (bitlen (n div 2)) = Suc (nat (bitlen (n div 2) - 1))" by linarith
    have e1: "bitlen n - 1 = bitlen (n div 2)" by (simp add: bl)
    from b have e2: "nat (bitlen n) = Suc (nat (bitlen (n div 2)))" unfolding bl by linarith
    from lo have "2 ^ nat (bitlen n - 1) \<le> n" unfolding e1 n1 by simp
    moreover from hi have "n < 2 ^ nat (bitlen n)" unfolding e2 by simp
    moreover from b have "0 < bitlen n" unfolding bl by simp
    ultimately show ?thesis by simp
  qed
qed

lemma ilog2_below:
  assumes "0 < y"
  shows "pow2 (ilog2 y - 52) \<le> y"
proof -
  obtain p q where pq: "quotient_of y = (p, q)" by (cases "quotient_of y")
  then have q: "0 < q" and y: "y = of_int p / of_int q"
    by (simp_all add: quotient_of_denom_pos quotient_of_div)
  from assms y q have p: "0 < p" by (simp add: zero_less_divide_iff)
  let ?k = "bitlen p - bitlen q"
  note bp = bitlen_bounds[OF p] and bq = bitlen_bounds[OF q]
  have "pow2 (?k - 1) = 2 powi ((bitlen p - 1) - bitlen q)"
    by (simp add: pow2_powi algebra_simps)
  also have "\<dots> = 2 powi (bitlen p - 1) / 2 powi (bitlen q)"
    by (rule power_int_diff) simp
  also have "\<dots> = 2 ^ nat (bitlen p - 1) / 2 ^ nat (bitlen q)"
    using bp bq by (simp add: power_int_def)
  also have "\<dots> \<le> of_int p / of_int q"
  proof (rule frac_le)
    from bp have "(2 :: int) ^ nat (bitlen p - 1) \<le> p" by simp
    then have "of_int ((2 :: int) ^ nat (bitlen p - 1)) \<le> (of_int p :: rat)" by (simp only: of_int_le_iff)
    then show "(2 :: rat) ^ nat (bitlen p - 1) \<le> of_int p" by simp
    from bq have "q \<le> (2 :: int) ^ nat (bitlen q)" by simp
    then have "(of_int q :: rat) \<le> of_int ((2 :: int) ^ nat (bitlen q))" by (simp only: of_int_le_iff)
    then show "(of_int q :: rat) \<le> 2 ^ nat (bitlen q)" by simp
  qed (use p q in simp_all)
  finally have lo: "pow2 (?k - 1) \<le> y" by (simp add: y)
  show ?thesis
  proof (cases "pow2 ?k \<le> y")
    case True
    then have "ilog2 y = ?k" by (simp add: ilog2_def pq)
    moreover have "pow2 (?k - 52) \<le> pow2 ?k" by (rule pow2_mono) simp
    ultimately show ?thesis using True by simp
  next
    case False
    then have "ilog2 y = ?k - 1" by (simp add: ilog2_def pq)
    moreover have "pow2 (?k - 1 - 52) \<le> pow2 (?k - 1)" by (rule pow2_mono) simp
    ultimately show ?thesis using lo by simp
  qed
qed

lemma bin64_neg: "bin64 x < 0 \<longleftrightarrow> x < 0"
proof (cases "x = 0")
  case True
  then show ?thesis by (simp add: bin64_def)
next
  case False
  define u where "u = pow2 (ilog2 \<bar>x\<bar> - 52)"
  define f where "f = \<lfloor>x / u\<rfloor>"
  define r where "r = (if x / u - of_int f < 1 / 2 then f else if 1 / 2 < x / u - of_int f then f + 1
                     else if even f then f else f + 1)"
  have u: "0 < u" by (simp add: u_def pow2_pos)
  have b: "bin64 x = of_int r * u"
    using False by (simp add: bin64_def Let_def u_def f_def r_def)
  have le: "u \<le> \<bar>x\<bar>" unfolding u_def using False by (intro ilog2_below) simp
  show ?thesis
  proof (cases "x < 0")
    case True
    with le have "x \<le> - u" by simp
    with u have "x / u \<le> - 1" by (simp add: field_simps)
    then have f1: "f \<le> - 1" unfolding f_def by (simp add: floor_le_iff)
    have "r < 0"
    proof (cases "f = - 1")
      case True
      with \<open>x / u \<le> - 1\<close> have "x / u = - 1"
        using of_int_floor_le[of "x / u"] by (simp add: f_def)
      then show ?thesis by (simp add: r_def f_def)
    next
      case False
      with f1 have "f + 1 < 0" by simp
      then show ?thesis by (simp add: r_def)
    qed
    with u have "of_int r * u < 0" by (simp add: mult_less_0_iff)
    with True b show ?thesis by simp
  next
    case False
    then have "0 \<le> x / u" using u by simp
    then have "0 \<le> f" by (simp add: f_def)
    then have "0 \<le> r" by (simp add: r_def)
    with u have "0 \<le> of_int r * u" by simp
    with False b show ?thesis by simp
  qed
qed

lemma NUM2DBL_neg [simp]: "NUM2DBL t < 0 \<longleftrightarrow> t < 0"
  by (simp add: NUM2DBL_def bin64_neg)

subsection \<open>What each step leaves alone\<close>


lemma shutdown_twice: "NIO_Selector_shutdown (NIO_Selector_shutdown w) = NIO_Selector_shutdown w"
  by (simp add: NIO_Selector_shutdown_def emit_def Let_def split: option.splits)

lemma run_frame_simps [simp]:
  "run_frame (emit e w) = run_frame w"
  "run_frame (w\<lparr>selecting := a\<rparr>) = run_frame w"
  "run_frame (w\<lparr>ready_count := c\<rparr>) = run_frame w"
  "run_frame (w\<lparr>ready_array := d\<rparr>) = run_frame w"
  "run_frame (w\<lparr>monitors := f\<rparr>) = run_frame w"
  "run_frame (w\<lparr>wakeup_pipe := g\<rparr>) = run_frame w"
  "run_frame (w\<lparr>clock := h\<rparr>) = run_frame w"
  by (simp_all add: run_frame_def emit_def)

lemma sys_read_frame: "sys_read n w = (k, w') \<Longrightarrow> run_frame w' = run_frame w"
  by (auto simp: sys_read_def Let_def split: if_splits)

lemma drain_frame: "run_frame (drain w) = run_frame w"
proof (induction w rule: drain.induct)
  case (1 w)
  obtain n w' where r: "sys_read 128 w = (n, w')" by (cases "sys_read 128 w")
  show ?case
  proof (cases "n > 0")
    case True
    with 1 r have "run_frame (drain w') = run_frame w'" by simp
    with r True show ?thesis by (subst drain.simps) (simp add: sys_read_frame)
  next
    case False
    with r show ?thesis by (subst drain.simps) (simp add: sys_read_frame)
  qed
qed

lemma wakeup_callback_frame: "run_frame (NIO_Selector_wakeup_callback w) = run_frame w"
  by (simp add: NIO_Selector_wakeup_callback_def drain_frame)

lemma monitor_callback_frame:
  "NIO_Selector_monitor_callback blk r ev w = (out, w') \<Longrightarrow> run_frame w' = run_frame w"
  by (auto simp: NIO_Selector_monitor_callback_def Let_def split: option.splits if_splits visit.splits)

lemma dispatch_frame: "dispatch blk evs w = (out, w') \<Longrightarrow> run_frame w' = run_frame w"
proof (induction evs arbitrary: w)
  case Nil
  then show ?case by simp
next
  case (Cons p evs)
  obtain r ev where p: "p = (r, ev)" by (cases p)
  obtain o1 w1 where c: "NIO_Selector_monitor_callback blk r ev (emit (Fire_monitor r ev) w) = (o1, w1)"
    by (cases "NIO_Selector_monitor_callback blk r ev (emit (Fire_monitor r ev) w)")
  from monitor_callback_frame[OF c] have f1: "run_frame w1 = run_frame w" by simp
  show ?case
  proof (cases o1)
    case (Return u)
    with Cons.prems p c have "dispatch blk evs w1 = (out, w')" by simp
    from Cons.IH[OF this] f1 show ?thesis by simp
  next
    case (Raise e)
    with Cons.prems p c f1 show ?thesis by auto
  next
    case (Crash f)
    with Cons.prems p c f1 show ?thesis by auto
  qed
qed

lemma engine_iteration_frame:
  "engine_iteration blk l it w = (out, w') \<Longrightarrow> run_frame w' = run_frame w"
  by (auto simp: engine_iteration_def Let_def wakeup_callback_frame
           split: prod.splits if_splits dest!: dispatch_frame)

lemma busy_wait_frame:
  "busy_wait blk l t s its w = Some (out, w') \<Longrightarrow> run_frame w' = run_frame w"
proof (induction its arbitrary: w)
  case Nil
  then show ?case by (simp split: if_splits)
next
  case (Cons it its)
  show ?case
  proof (cases "selecting w \<noteq> 0 \<and> ready_count w = 0")
    case False
    with Cons.prems show ?thesis by auto
  next
    case True
    obtain o1 w1 where e: "engine_iteration blk l it w = (o1, w1)"
      by (cases "engine_iteration blk l it w")
    from engine_iteration_frame[OF e] have f1: "run_frame w1 = run_frame w" .
    show ?thesis
    proof (cases o1)
      case (Return u)
      with Cons.prems True e
      have "busy_wait blk l t s its (emit Thread_schedule w1) = Some (out, w')
            \<or> (out, w') = (Return (), emit Thread_schedule w1)"
        by (auto simp: Let_def split: option.splits if_splits)
      then show ?thesis using Cons.IH f1 by auto
    next
      case (Raise e')
      with Cons.prems True e f1 show ?thesis by auto
    next
      case (Crash f)
      with Cons.prems True e f1 show ?thesis by auto
    qed
  qed
qed

lemma run_blocking_frame:
  "run_blocking blk l t its w = Some (out, w') \<Longrightarrow> run_frame w' = run_frame w"
  by (auto simp: run_blocking_def Let_def split: list.splits option.splits dest!: engine_iteration_frame)

lemma run_busy_wait_frame:
  "run_busy_wait blk l t its w = Some (out, w') \<Longrightarrow> run_frame w' = run_frame w"
  by (auto simp: run_busy_wait_def Let_def split: option.splits prod.splits outcome.splits
           dest!: busy_wait_frame)

lemma run_frame_run:
  "NIO_Selector_run b blk t its w = Some (out, w') \<Longrightarrow> run_frame w' = run_frame w"
  by (auto simp: NIO_Selector_run_def Let_def
           split: option.splits prod.splits outcome.splits build.splits
           dest!: run_busy_wait_frame run_blocking_frame)

lemma select_synchronized_frame:
  "NIO_Selector_select_synchronized b blk t its w = Some (out, w') \<Longrightarrow> run_frame w' = run_frame w"
  by (auto simp: NIO_Selector_select_synchronized_def Let_def
           split: option.splits prod.splits outcome.splits if_splits
           dest!: run_frame_run)

lemma synchronize_frame:
  assumes g1: "\<And>s x. g (s\<lparr>lock := x\<rparr>) = g s"
    and g2: "\<And>s x. g (s\<lparr>lock_holder := x\<rparr>) = g s"
    and f: "\<And>s out s'. func s = Some (out, s') \<Longrightarrow> g s' = g s"
    and r: "NIO_Selector_synchronize cur func w = Some (out, w')"
  shows "g w' = g w"
proof (cases "lock_holder w \<noteq> Some cur")
  case False
  with r obtain o1 where "func w = Some (o1, w')"
    by (auto simp: NIO_Selector_synchronize_def split: option.splits outcome.splits prod.splits)
  then show ?thesis by (rule f)
next
  case True
  show ?thesis
  proof (cases "lock w")
    case (Some t)
    with r True show ?thesis
      by (auto simp: NIO_Selector_synchronize_def Mutex_lock_def split: if_splits)
  next
    case None
    let ?w2 = "w\<lparr>lock := Some cur, lock_holder := Some cur\<rparr>"
    from r True None obtain o1 where e: "rb_ensure func (NIO_Selector_unlock cur) ?w2 = Some (o1, w')"
      by (auto simp: NIO_Selector_synchronize_def Mutex_lock_def)
    then obtain o2 w3 where b: "func ?w2 = Some (o2, w3)"
      by (auto simp: rb_ensure_def split: option.splits)
    have "g w3 = g ?w2" using b by (rule f)
    then have g3: "g w3 = g w" by (simp add: g1 g2)
    have u: "g (snd (NIO_Selector_unlock cur w3)) = g w3"
      by (simp add: NIO_Selector_unlock_def Mutex_unlock_def g1 g2)
    from e b have "w' = w3 \<or> w' = snd (NIO_Selector_unlock cur w3)"
      by (auto simp: rb_ensure_def split: outcome.splits prod.splits)
    with g3 u show ?thesis by auto
  qed
qed

lemma register_synchronized_reg_frame:
  "NIO_Selector_register_synchronized h i w = (out, w') \<Longrightarrow> reg_frame w' = reg_frame w"
  by (auto simp: NIO_Selector_register_synchronized_def Monitor_new_def reg_frame_def
           split: option.splits)

lemma deregister_synchronized_reg_frame:
  "NIO_Selector_deregister_synchronized h w = (out, w') \<Longrightarrow> reg_frame w' = reg_frame w"
  by (auto simp: NIO_Selector_deregister_synchronized_def reg_frame_def emit_def
           split: option.splits)

lemma exec_reg_frame:
  assumes "c = Register cur h i \<or> c = Deregister cur h \<or> c = Is_registered h"
    and "exec b c w = Some (out, w')"
  shows "reg_frame w' = reg_frame w"
proof -
  have l1: "\<And>s x. reg_frame (s\<lparr>lock := x\<rparr>) = reg_frame s"
    and l2: "\<And>s x. reg_frame (s\<lparr>lock_holder := x\<rparr>) = reg_frame s"
    by (simp_all add: reg_frame_def)
  from assms(1) consider (r) "c = Register cur h i" | (d) "c = Deregister cur h" | (q) "c = Is_registered h"
    by blast
  then show ?thesis
  proof cases
    case r
    with assms(2) have "NIO_Selector_synchronize cur (\<lambda>s. Some (NIO_Selector_register_synchronized h i s)) w = Some (out, w')"
      by (simp add: NIO_Selector_register_def)
    then show ?thesis
      by (rule synchronize_frame[where g = reg_frame, rotated 3])
         (auto simp: l1 l2 dest: register_synchronized_reg_frame)
  next
    case d
    with assms(2) have "NIO_Selector_synchronize cur (\<lambda>s. Some (NIO_Selector_deregister_synchronized h s)) w = Some (out, w')"
      by (simp add: NIO_Selector_deregister_def)
    then show ?thesis
      by (rule synchronize_frame[where g = reg_frame, rotated 3])
         (auto simp: l1 l2 dest: deregister_synchronized_reg_frame)
  next
    case q
    with assms(2) show ?thesis
      by (auto simp: lift_plain_def NIO_Selector_is_registered_def)
  qed
qed

lemma exec_closed_flag:
  assumes "exec b c w = Some (out, w')" and "closed_flag w \<noteq> 0"
  shows "closed_flag w' \<noteq> 0"
proof (cases c)
  case (Register cur h i)
  with assms(1) exec_reg_frame[of c cur h i b w out w'] have "reg_frame w' = reg_frame w" by simp
  with assms(2) show ?thesis by (simp add: reg_frame_def)
next
  case (Deregister cur h)
  with assms(1) exec_reg_frame[of c cur h _ b w out w'] have "reg_frame w' = reg_frame w" by simp
  with assms(2) show ?thesis by (simp add: reg_frame_def)
next
  case (Is_registered h)
  with assms show ?thesis by (auto simp: lift_plain_def NIO_Selector_is_registered_def)
next
  case (Select cur t blk its)
  from Select assms(1) have
    "(out, w') = (Raise (ArgumentError ''time interval must be positive''), w)
     \<or> NIO_Selector_synchronize cur (NIO_Selector_select_synchronized b blk t its) w = Some (out, w')"
    by (auto simp: NIO_Selector_select_def split: option.splits if_splits)
  then show ?thesis
  proof
    assume "(out, w') = (Raise (ArgumentError ''time interval must be positive''), w)"
    with assms(2) show ?thesis by simp
  next
    assume s: "NIO_Selector_synchronize cur (NIO_Selector_select_synchronized b blk t its) w = Some (out, w')"
    have "closed_flag w' = closed_flag w"
      by (rule synchronize_frame[where g = closed_flag, OF _ _ _ s])
         (auto dest!: select_synchronized_frame simp: run_frame_def)
    with assms(2) show ?thesis by simp
  qed
next
  case Wakeup
  with assms show ?thesis
    by (auto simp: lift_plain_def NIO_Selector_wakeup_def emit_def split: if_splits)
next
  case Close
  with assms show ?thesis
    by (auto simp: lift_plain_def NIO_Selector_close_def NIO_Selector_shutdown_def emit_def Let_def
             split: if_splits option.splits)
next
  case Closed_p
  with assms show ?thesis by (auto simp: lift_plain_def)
qed

lemma exec_all_closed_flag:
  "exec_all b cs w = Some w' \<Longrightarrow> closed_flag w \<noteq> 0 \<Longrightarrow> closed_flag w' \<noteq> 0"
proof (induction cs arbitrary: w)
  case Nil
  then show ?case by simp
next
  case (Cons c cs)
  from Cons.prems(1) obtain out w1 where e: "exec b c w = Some (out, w1)" and r: "exec_all b cs w1 = Some w'"
    by (auto split: option.splits outcome.splits prod.splits)
  from exec_closed_flag[OF e Cons.prems(2)] Cons.IH[OF r] show ?case by simp
qed

lemmas call_defs =
  NIO_Selector_register_def NIO_Selector_deregister_def NIO_Selector_is_registered_def
  NIO_Selector_select_def NIO_Selector_wakeup_def NIO_Selector_close_def NIO_Selector_closed_def
  NIO_Selector_shutdown_def NIO_Selector_synchronize_def rb_ensure_def NIO_Selector_unlock_def
  Mutex_lock_def Mutex_unlock_def map_outcome_def lift_plain_def
  NIO_Selector_register_synchronized_def NIO_Selector_deregister_synchronized_def Monitor_new_def
  NIO_Selector_select_synchronized_def NIO_Selector_run_def run_blocking_def run_busy_wait_def
  engine_iteration_def NIO_Selector_monitor_callback_def NIO_Selector_wakeup_callback_def
  sys_read_def emit_def Let_def

lemma Selector_new_fresh: "Selector_new (Some (3, 4)) 65536 True 1 = Return fresh_selector"
  by (simp add: Selector_new_def NIO_Selector_allocate_def NIO_Selector_initialize_def
        map_outcome_def fresh_selector_def)

text \<open>
  Claim C9. \<^verbatim>\<open>close\<close> always returns nil. On an open selector the first call destroys
  the engine handle, closes the read end and the write end of the wakeup pipe, each once,
  and sets \<open>closed\<close>. A second call changes nothing, so nothing is released twice.
  \<^verbatim>\<open>closed?\<close> is true after a call of \<^verbatim>\<open>close\<close> and stays true after any
  further calls.
\<close>

theorem close_idempotent:
  "fst (NIO_Selector_close w) = Return Qnil
   \<and> (closed_flag w = 0 \<and> ev_loop w = Some l \<longrightarrow>
        trace (snd (NIO_Selector_close w)) =
          trace w @ [Ev_loop_destroy l, Sys_close (wakeup_reader w), Sys_close (wakeup_writer w)]
        \<and> ev_loop (snd (NIO_Selector_close w)) = None
        \<and> closed_flag (snd (NIO_Selector_close w)) = 1)
   \<and> NIO_Selector_close (snd (NIO_Selector_close w)) = (Return Qnil, snd (NIO_Selector_close w))
   \<and> NIO_Selector_closed (snd (NIO_Selector_close w)) = Qtrue
   \<and> (exec_all b cs (snd (NIO_Selector_close w)) = Some w' \<longrightarrow> NIO_Selector_closed w' = Qtrue)"
proof -
  have c: "closed_flag (NIO_Selector_shutdown w) \<noteq> 0"
    by (simp add: NIO_Selector_shutdown_def emit_def Let_def split: option.splits)
  have first: "closed_flag w = 0 \<and> ev_loop w = Some l \<longrightarrow>
        trace (NIO_Selector_shutdown w) =
          trace w @ [Ev_loop_destroy l, Sys_close (wakeup_reader w), Sys_close (wakeup_writer w)]
        \<and> ev_loop (NIO_Selector_shutdown w) = None
        \<and> closed_flag (NIO_Selector_shutdown w) = 1"
    by (simp add: NIO_Selector_shutdown_def emit_def Let_def)
  have later: "exec_all b cs (NIO_Selector_shutdown w) = Some w' \<longrightarrow> closed_flag w' \<noteq> 0"
    using exec_all_closed_flag[of b cs "NIO_Selector_shutdown w" w'] c by blast
  show ?thesis
    using c first later by (simp add: NIO_Selector_close_def NIO_Selector_closed_def shutdown_twice)
qed

theorem close_idempotent_witness:
  "closed_flag fresh_selector = 0 \<and> ev_loop fresh_selector = Some 1
   \<and> trace (snd (NIO_Selector_close fresh_selector)) = [Ev_loop_destroy 1, Sys_close 3, Sys_close 4]
   \<and> closed_flag (snd (NIO_Selector_close fresh_selector)) = 1
   \<and> exec_all Blocking_region [Close, Closed_p, Wakeup] (snd (NIO_Selector_close fresh_selector))
       = Some (snd (NIO_Selector_close fresh_selector))
   \<and> NIO_Selector_closed (snd (NIO_Selector_close fresh_selector)) = Qtrue"
  using close_idempotent[of fresh_selector 1 Blocking_region "[Close, Closed_p, Wakeup]"
          "snd (NIO_Selector_close fresh_selector)"]
  by (simp add: fresh_selector_def call_defs)

text \<open>
  Claim C10. \<^verbatim>\<open>register\<close>, \<^verbatim>\<open>deregister\<close> and \<^verbatim>\<open>registered?\<close> leave the
  closed flag, the selecting flag, the ready count, the pending ready array, both ends
  of the wakeup pipe (and what it holds) and the engine handle as they were.
\<close>

theorem registration_frame:
  assumes "c = Register cur h i \<or> c = Deregister cur h \<or> c = Is_registered h"
    and "exec b c w = Some (out, w')"
  shows "closed_flag w' = closed_flag w \<and> selecting w' = selecting w
         \<and> ready_count w' = ready_count w \<and> ready_array w' = ready_array w
         \<and> wakeup_reader w' = wakeup_reader w \<and> wakeup_writer w' = wakeup_writer w
         \<and> wakeup_pipe w' = wakeup_pipe w \<and> ev_loop w' = ev_loop w"
  using exec_reg_frame[OF assms] by (simp add: reg_frame_def)

theorem registration_frame_witness:
  "exec Blocking_region (Register 1 7 Readable) fresh_selector
     = Some (Return (Retval (Monitor 0)),
        fresh_selector\<lparr>selectables := [7 \<mapsto> 0],
          monitors := [0 \<mapsto> \<lparr>io = 7, interests = Readable, selector = True, revents = 0\<rparr>],
          next_ref := 1\<rparr>)
   \<and> closed_flag (fresh_selector\<lparr>selectables := [7 \<mapsto> 0],
          monitors := [0 \<mapsto> \<lparr>io = 7, interests = Readable, selector = True, revents = 0\<rparr>],
          next_ref := 1\<rparr>) = closed_flag fresh_selector"
  using registration_frame[of "Register 1 7 Readable" 1 7 Readable Blocking_region fresh_selector
     "Return (Retval (Monitor 0))" "fresh_selector\<lparr>selectables := [7 \<mapsto> 0],
          monitors := [0 \<mapsto> \<lparr>io = 7, interests = Readable, selector = True, revents = 0\<rparr>],
          next_ref := 1\<rparr>"]
  by (simp add: fresh_selector_def call_defs)

subsection \<open>Registration\<close>

lemma synchronize_enter:
  assumes "lock w = None" and "lock_holder w \<noteq> Some cur"
    and "func (w\<lparr>lock := Some cur, lock_holder := Some cur\<rparr>) = Some (out, w1)"
    and "lock w1 = Some cur" and "\<forall>f. out \<noteq> Crash f"
  shows "NIO_Selector_synchronize cur func w
           = Some (map_outcome Retval out, w1\<lparr>lock_holder := None, lock := None\<rparr>)"
  using assms
  by (cases out)
     (simp_all add: NIO_Selector_synchronize_def Mutex_lock_def rb_ensure_def
        NIO_Selector_unlock_def Mutex_unlock_def map_outcome_def)

text \<open>
  Claim C3. \<^verbatim>\<open>register\<close> of a handle that is not in the table creates a Monitor
  for the handle with the given interests, stores it in the table under the handle and
  returns it. When the handle is in the table already, \<^verbatim>\<open>register\<close> raises the
  error of a double registration and the table (indeed the whole state) is as before. The
  first two parts are about the function that runs inside the lock, in any state; the
  third is the method as called by a thread that has to take the lock.
\<close>

theorem register_stores_monitor:
  "(selectables w h = None \<longrightarrow>
      NIO_Selector_register_synchronized h i w =
        (Return (Monitor (next_ref w)),
         w\<lparr>monitors := (monitors w)(next_ref w \<mapsto> \<lparr>io = h, interests = i, selector = True, revents = 0\<rparr>),
           next_ref := Suc (next_ref w),
           selectables := (selectables w)(h \<mapsto> next_ref w)\<rparr>))
   \<and> (selectables w h \<noteq> None \<longrightarrow>
      NIO_Selector_register_synchronized h i w =
        (Raise (ArgumentError ''this IO is already registered with selector''), w))
   \<and> (lock w = None \<and> lock_holder w \<noteq> Some cur \<longrightarrow>
      (\<exists>out w'. NIO_Selector_register cur h i w = Some (out, w')
         \<and> lock w' = None \<and> lock_holder w' = None
         \<and> (selectables w h = None \<longrightarrow>
               out = Return (Retval (Monitor (next_ref w)))
               \<and> selectables w' = (selectables w)(h \<mapsto> next_ref w)
               \<and> monitors w' = (monitors w)(next_ref w \<mapsto> \<lparr>io = h, interests = i, selector = True, revents = 0\<rparr>))
         \<and> (selectables w h \<noteq> None \<longrightarrow>
               out = Raise (ArgumentError ''this IO is already registered with selector'')
               \<and> selectables w' = selectables w \<and> monitors w' = monitors w \<and> trace w' = trace w)))"
proof (intro conjI impI)
  show "NIO_Selector_register_synchronized h i w =
        (Return (Monitor (next_ref w)),
         w\<lparr>monitors := (monitors w)(next_ref w \<mapsto> \<lparr>io = h, interests = i, selector = True, revents = 0\<rparr>),
           next_ref := Suc (next_ref w),
           selectables := (selectables w)(h \<mapsto> next_ref w)\<rparr>)"
    if "selectables w h = None"
    using that by (simp add: NIO_Selector_register_synchronized_def Monitor_new_def)
  show "NIO_Selector_register_synchronized h i w =
        (Raise (ArgumentError ''this IO is already registered with selector''), w)"
    if "selectables w h \<noteq> None"
    using that by (auto simp: NIO_Selector_register_synchronized_def)
  show "\<exists>out w'. NIO_Selector_register cur h i w = Some (out, w')
         \<and> lock w' = None \<and> lock_holder w' = None
         \<and> (selectables w h = None \<longrightarrow>
               out = Return (Retval (Monitor (next_ref w)))
               \<and> selectables w' = (selectables w)(h \<mapsto> next_ref w)
               \<and> monitors w' = (monitors w)(next_ref w \<mapsto> \<lparr>io = h, interests = i, selector = True, revents = 0\<rparr>))
         \<and> (selectables w h \<noteq> None \<longrightarrow>
               out = Raise (ArgumentError ''this IO is already registered with selector'')
               \<and> selectables w' = selectables w \<and> monitors w' = monitors w \<and> trace w' = trace w)"
    if "lock w = None \<and> lock_holder w \<noteq> Some cur"
  proof (cases "selectables w h")
    case None
    with that show ?thesis
      by (simp add: NIO_Selector_register_def NIO_Selector_synchronize_def Mutex_lock_def
            rb_ensure_def NIO_Selector_unlock_def Mutex_unlock_def map_outcome_def
            NIO_Selector_register_synchronized_def Monitor_new_def)
  next
    case (Some m)
    with that show ?thesis
      by (simp add: NIO_Selector_register_def NIO_Selector_synchronize_def Mutex_lock_def
            rb_ensure_def NIO_Selector_unlock_def Mutex_unlock_def map_outcome_def
            NIO_Selector_register_synchronized_def Monitor_new_def)
  qed
qed

theorem register_stores_monitor_witness:
  "selectables fresh_selector 7 = None \<and> lock fresh_selector = None
   \<and> lock_holder fresh_selector \<noteq> Some 1
   \<and> (\<exists>w'. NIO_Selector_register 1 7 Readable fresh_selector = Some (Return (Retval (Monitor 0)), w')
        \<and> selectables w' 7 = Some 0
        \<and> monitors w' 0 = Some \<lparr>io = 7, interests = Readable, selector = True, revents = 0\<rparr>
        \<and> selectables w' 7 \<noteq> None \<and> lock w' = None \<and> lock_holder w' \<noteq> Some 2
        \<and> (\<exists>w''. NIO_Selector_register 2 7 Writable w'
                    = Some (Raise (ArgumentError ''this IO is already registered with selector''), w'')
              \<and> selectables w'' = selectables w'))"
  using register_stores_monitor[of fresh_selector 7 Readable 1]
    register_stores_monitor[of "fresh_selector\<lparr>selectables := [7 \<mapsto> 0],
          monitors := [0 \<mapsto> \<lparr>io = 7, interests = Readable, selector = True, revents = 0\<rparr>],
          next_ref := 1\<rparr>" 7 Writable 2]
  by (simp add: fresh_selector_def call_defs)

text \<open>
  Claim C8. \<^verbatim>\<open>deregister\<close> of a registered handle removes its Monitor from the
  table, calls the Monitor's \<^verbatim>\<open>close\<close> with false and returns the Monitor. For a
  handle that is not registered it returns nil; nothing is raised, the table is as before
  and no \<^verbatim>\<open>close\<close> is called.
\<close>

theorem deregister_removes_monitor:
  "(selectables w h = Some m \<longrightarrow>
      NIO_Selector_deregister_synchronized h w =
        (Return (Monitor m),
         w\<lparr>selectables := (selectables w)(h := None), trace := trace w @ [Monitor_close m False]\<rparr>))
   \<and> (selectables w h = None \<longrightarrow> NIO_Selector_deregister_synchronized h w = (Return Qnil, w))
   \<and> (lock w = None \<and> lock_holder w \<noteq> Some cur \<longrightarrow>
      (\<exists>out w'. NIO_Selector_deregister cur h w = Some (out, w')
         \<and> lock w' = None \<and> lock_holder w' = None \<and> monitors w' = monitors w
         \<and> (selectables w h = Some m \<longrightarrow>
               out = Return (Retval (Monitor m))
               \<and> selectables w' = (selectables w)(h := None)
               \<and> trace w' = trace w @ [Monitor_close m False])
         \<and> (selectables w h = None \<longrightarrow>
               out = Return (Retval Qnil)
               \<and> selectables w' = selectables w \<and> trace w' = trace w)))"
proof (intro conjI impI)
  show "NIO_Selector_deregister_synchronized h w =
        (Return (Monitor m),
         w\<lparr>selectables := (selectables w)(h := None), trace := trace w @ [Monitor_close m False]\<rparr>)"
    if "selectables w h = Some m"
    using that by (simp add: NIO_Selector_deregister_synchronized_def emit_def)
  show "NIO_Selector_deregister_synchronized h w = (Return Qnil, w)"
    if "selectables w h = None"
    using that by (simp add: NIO_Selector_deregister_synchronized_def)
  show "\<exists>out w'. NIO_Selector_deregister cur h w = Some (out, w')
         \<and> lock w' = None \<and> lock_holder w' = None \<and> monitors w' = monitors w
         \<and> (selectables w h = Some m \<longrightarrow>
               out = Return (Retval (Monitor m))
               \<and> selectables w' = (selectables w)(h := None)
               \<and> trace w' = trace w @ [Monitor_close m False])
         \<and> (selectables w h = None \<longrightarrow>
               out = Return (Retval Qnil)
               \<and> selectables w' = selectables w \<and> trace w' = trace w)"
    if "lock w = None \<and> lock_holder w \<noteq> Some cur"
  proof (cases "selectables w h")
    case None
    with that show ?thesis
      by (simp add: NIO_Selector_deregister_def NIO_Selector_synchronize_def Mutex_lock_def
            rb_ensure_def NIO_Selector_unlock_def Mutex_unlock_def map_outcome_def
            NIO_Selector_deregister_synchronized_def emit_def)
  next
    case (Some m')
    with that show ?thesis
      by (simp add: NIO_Selector_deregister_def NIO_Selector_synchronize_def Mutex_lock_def
            rb_ensure_def NIO_Selector_unlock_def Mutex_unlock_def map_outcome_def
            NIO_Selector_deregister_synchronized_def emit_def)
  qed
qed

theorem deregister_removes_monitor_witness:
  "selectables (fresh_selector\<lparr>selectables := [7 \<mapsto> 0]\<rparr>) 7 = Some 0
   \<and> selectables (fresh_selector\<lparr>selectables := [7 \<mapsto> 0]\<rparr>) 8 = None
   \<and> lock (fresh_selector\<lparr>selectables := [7 \<mapsto> 0]\<rparr>) = None
   \<and> lock_holder (fresh_selector\<lparr>selectables := [7 \<mapsto> 0]\<rparr>) \<noteq> Some 1
   \<and> (\<exists>w'. NIO_Selector_deregister 1 7 (fresh_selector\<lparr>selectables := [7 \<mapsto> 0]\<rparr>)
               = Some (Return (Retval (Monitor 0)), w')
         \<and> selectables w' 7 = None \<and> trace w' = [Monitor_close 0 False])
   \<and> (\<exists>w'. NIO_Selector_deregister 1 8 (fresh_selector\<lparr>selectables := [7 \<mapsto> 0]\<rparr>)
               = Some (Return (Retval Qnil), w')
         \<and> selectables w' 7 = Some 0 \<and> trace w' = [])"
  using deregister_removes_monitor[of "fresh_selector\<lparr>selectables := [7 \<mapsto> 0]\<rparr>" 7 0 1]
    deregister_removes_monitor[of "fresh_selector\<lparr>selectables := [7 \<mapsto> 0]\<rparr>" 8 0 1]
  by (simp add: fresh_selector_def call_defs)

subsection \<open>What each step adds to the trace\<close>

lemma proj_simps [simp]:
  "proj g (emit e w) = proj g w @ g e"
  "proj g (w\<lparr>selecting := a\<rparr>) = proj g w"
  "proj g (w\<lparr>ready_count := c\<rparr>) = proj g w"
  "proj g (w\<lparr>ready_array := d\<rparr>) = proj g w"
  "proj g (w\<lparr>monitors := f\<rparr>) = proj g w"
  "proj g (w\<lparr>wakeup_pipe := p\<rparr>) = proj g w"
  "proj g (w\<lparr>clock := h\<rparr>) = proj g w"
  "proj g (w\<lparr>lock := x\<rparr>) = proj g w"
  "proj g (w\<lparr>lock_holder := x\<rparr>) = proj g w"
  by (simp_all add: proj_def emit_def)

lemma emit_fields [simp]:
  "ready_count (emit e w) = ready_count w"
  "ready_array (emit e w) = ready_array w"
  "selecting (emit e w) = selecting w"
  "wakeup_pipe (emit e w) = wakeup_pipe w"
  "monitors (emit e w) = monitors w"
  "clock (emit e w) = clock w"
  "closed_flag (emit e w) = closed_flag w"
  "pipe_capacity (emit e w) = pipe_capacity w"
  "wakeup_writer (emit e w) = wakeup_writer w"
  "wakeup_reader (emit e w) = wakeup_reader w"
  "ev_loop (emit e w) = ev_loop w"
  "lock (emit e w) = lock w"
  "lock_holder (emit e w) = lock_holder w"
  "selectables (emit e w) = selectables w"
  "trace (emit e w) = trace w @ [e]"
  by (simp_all add: emit_def)

lemma drain_props:
  assumes "\<And>fd n. g (Sys_read fd n) = []"
  shows "proj g (drain w) = proj g w \<and> wakeup_pipe (drain w) = []
         \<and> ready_count (drain w) = ready_count w \<and> ready_array (drain w) = ready_array w
         \<and> selecting (drain w) = selecting w \<and> monitors (drain w) = monitors w
         \<and> clock (drain w) = clock w"
proof (induction w rule: drain.induct)
  case (1 w)
  show ?case
  proof (cases "wakeup_pipe w = []")
    case True
    then show ?thesis
      by (subst (1 2 3 4 5 6 7) drain.simps) (simp add: sys_read_def assms)
  next
    case False
    let ?n = "min 128 (length (wakeup_pipe w))"
    let ?w' = "(emit (Sys_read (wakeup_reader w) (int ?n)) w)\<lparr>wakeup_pipe := drop ?n (wakeup_pipe w)\<rparr>"
    from False have r: "sys_read 128 w = (int ?n, ?w')" by (simp add: sys_read_def Let_def)
    from False have pos: "int ?n > 0" by (cases "wakeup_pipe w") auto
    from 1[OF r[symmetric] pos] have ih: "proj g (drain ?w') = proj g ?w' \<and> wakeup_pipe (drain ?w') = []
         \<and> ready_count (drain ?w') = ready_count ?w' \<and> ready_array (drain ?w') = ready_array ?w'
         \<and> selecting (drain ?w') = selecting ?w' \<and> monitors (drain ?w') = monitors ?w'
         \<and> clock (drain ?w') = clock ?w'" .
    have d: "drain w = drain ?w'" using r pos by (subst drain.simps) simp
    show ?thesis unfolding d using ih by (simp add: assms)
  qed
qed

lemma wakeup_callback_props:
  assumes "\<And>fd n. g (Sys_read fd n) = []"
  shows "proj g (NIO_Selector_wakeup_callback w) = proj g w"
    and "wakeup_pipe (NIO_Selector_wakeup_callback w) = []"
    and "selecting (NIO_Selector_wakeup_callback w) = 0"
    and "ready_count (NIO_Selector_wakeup_callback w) = ready_count w"
    and "ready_array (NIO_Selector_wakeup_callback w) = ready_array w"
    and "monitors (NIO_Selector_wakeup_callback w) = monitors w"
  using drain_props[of g "w\<lparr>selecting := 0\<rparr>", OF assms]
  by (simp_all add: NIO_Selector_wakeup_callback_def)

lemma monitor_callback_any:
  assumes "NIO_Selector_monitor_callback blk r ev w = (out, w')"
  shows "wakeup_pipe w' = wakeup_pipe w \<and> selecting w' = selecting w \<and> clock w' = clock w
         \<and> (\<forall>e. out = Raise e \<longrightarrow> (\<exists>f. blk = Some f \<and> f r = Visit_raises e))
         \<and> ((\<forall>r. g (Yield r) = []) \<longrightarrow> proj g w' = proj g w)"
  using assms
  by (auto simp: NIO_Selector_monitor_callback_def Let_def split: option.splits if_splits visit.splits)

lemma monitor_callback_Return:
  assumes "NIO_Selector_monitor_callback blk r ev w = (Return u, w')"
  shows "trace w' = trace w @ (if blk \<noteq> None then [Yield r] else [])"
    and "ready_count w' = ready_count w + 1"
    and "ready_array w' = (if blk \<noteq> None then ready_array w else map_option (\<lambda>xs. xs @ [r]) (ready_array w))"
    and "\<exists>m. monitors w r = Some m \<and> selector m \<and> monitors w' = (monitors w)(r \<mapsto> m\<lparr>revents := ev\<rparr>)"
  using assms
  by (auto simp: NIO_Selector_monitor_callback_def Let_def split: option.splits if_splits visit.splits)

lemma dispatch_any:
  assumes "dispatch blk evs w = (out, w')"
  shows "wakeup_pipe w' = wakeup_pipe w \<and> selecting w' = selecting w \<and> clock w' = clock w
         \<and> (\<forall>e. out = Raise e \<longrightarrow>
               (\<exists>f r. blk = Some f \<and> r \<in> fst ` set evs \<and> f r = Visit_raises e))
         \<and> ((\<forall>r. g (Yield r) = []) \<and> (\<forall>r ev. g (Fire_monitor r ev) = []) \<longrightarrow> proj g w' = proj g w)"
  using assms
proof (induction evs arbitrary: w)
  case Nil
  then show ?case by auto
next
  case (Cons p evs)
  obtain r ev where p: "p = (r, ev)" by (cases p)
  obtain o1 w1 where c: "NIO_Selector_monitor_callback blk r ev (emit (Fire_monitor r ev) w) = (o1, w1)"
    by (cases "NIO_Selector_monitor_callback blk r ev (emit (Fire_monitor r ev) w)")
  from monitor_callback_any[OF c, of g]
  have a1: "wakeup_pipe w1 = wakeup_pipe w" "selecting w1 = selecting w" "clock w1 = clock w"
    and a2: "\<forall>e. o1 = Raise e \<longrightarrow> (\<exists>f. blk = Some f \<and> f r = Visit_raises e)"
    and a3: "(\<forall>r. g (Yield r) = []) \<and> (\<forall>r ev. g (Fire_monitor r ev) = []) \<longrightarrow> proj g w1 = proj g w"
    by simp_all
  show ?case
  proof (cases o1)
    case (Return u)
    with Cons.prems p c have d: "dispatch blk evs w1 = (out, w')" by simp
    from Cons.IH[OF d]
    have b1: "wakeup_pipe w' = wakeup_pipe w1" "selecting w' = selecting w1" "clock w' = clock w1"
      and b2: "\<forall>e. out = Raise e \<longrightarrow>
               (\<exists>f r. blk = Some f \<and> r \<in> fst ` set evs \<and> f r = Visit_raises e)"
      and b3: "(\<forall>r. g (Yield r) = []) \<and> (\<forall>r ev. g (Fire_monitor r ev) = []) \<longrightarrow> proj g w' = proj g w1"
      by simp_all
    from b2 have "\<forall>e. out = Raise e \<longrightarrow>
               (\<exists>f r. blk = Some f \<and> r \<in> fst ` set (p # evs) \<and> f r = Visit_raises e)"
      by (metis image_eqI insert_iff list.simps(15) image_insert)
    with a1 a3 b1 b3 show ?thesis by simp
  next
    case (Raise e)
    with Cons.prems p c have ow: "out = Raise e" "w' = w1" by simp_all
    from a2 Raise p have "\<exists>f r. blk = Some f \<and> r \<in> fst ` set (p # evs) \<and> f r = Visit_raises e"
      by auto
    with ow a1 a3 show ?thesis by simp
  next
    case (Crash f)
    with Cons.prems p c have ow: "out = Crash f" "w' = w1" by simp_all
    with a1 a3 show ?thesis by simp
  qed
qed

lemma dispatch_Return:
  assumes "dispatch blk evs w = (Return u, w')"
  shows "trace w' = trace w @ concat (map (cb_events (blk \<noteq> None)) evs)
         \<and> ready_count w' = ready_count w + int (length evs)
         \<and> ready_array w' = (if blk \<noteq> None then ready_array w
                              else map_option (\<lambda>xs. xs @ map fst evs) (ready_array w))"
  using assms
proof (induction evs arbitrary: w)
  case Nil
  then show ?case by (simp add: option.map_ident)
next
  case (Cons p evs)
  obtain r ev where p: "p = (r, ev)" by (cases p)
  obtain o1 w1 where c: "NIO_Selector_monitor_callback blk r ev (emit (Fire_monitor r ev) w) = (o1, w1)"
    by (cases "NIO_Selector_monitor_callback blk r ev (emit (Fire_monitor r ev) w)")
  from Cons.prems p c obtain u1 where o1: "o1 = Return u1" by (cases o1) auto
  with Cons.prems p c have d: "dispatch blk evs w1 = (Return u, w')" by simp
  note m = monitor_callback_Return(1-3)[OF c[unfolded o1]]
  from Cons.IH[OF d] m p show ?case
    by (cases "ready_array w") (auto simp: cb_events_def)
qed

lemma cb_events_monitor_of: "concat (map monitor_of (concat (map (cb_events bg) evs))) = map fst evs"
  by (induction evs) (auto simp: cb_events_def)

lemma cb_events_yield_of:
  "concat (map yield_of (concat (map (cb_events bg) evs))) = (if bg then map fst evs else [])"
  by (induction evs) (auto simp: cb_events_def)

lemma engine_iteration_any:
  assumes "engine_iteration blk l it w = (out, w')"
    and "\<And>fd n. g (Sys_read fd n) = []" and "\<And>r. g (Yield r) = []"
    and "\<And>r ev. g (Fire_monitor r ev) = []"
  shows "proj g w' = proj g w @ g (Ev_loop_oneshot l) @ (if wakeup_pipe w \<noteq> [] then g Fire_wakeup else [])"
    and "wakeup_pipe w' = []"
    and "selecting w' = (if wakeup_pipe w \<noteq> [] then 0 else selecting w)"
    and "clock w' = now it"
    and "\<forall>e. out = Raise e \<longrightarrow>
           (\<exists>f r. blk = Some f \<and> r \<in> fst ` set (fired it) \<and> f r = Visit_raises e)"
proof -
  let ?w1 = "emit (Ev_loop_oneshot l) w"
  let ?w2 = "if wakeup_pipe ?w1 \<noteq> [] then NIO_Selector_wakeup_callback (emit Fire_wakeup ?w1) else ?w1"
  obtain w3 where d: "dispatch blk (fired it) ?w2 = (out, w3)" and w': "w' = w3\<lparr>clock := now it\<rparr>"
    using assms(1) by (auto simp: engine_iteration_def Let_def split: prod.splits)
  note da = dispatch_any[OF d, of g]
  have p2: "proj g ?w2 = proj g w @ g (Ev_loop_oneshot l) @ (if wakeup_pipe w \<noteq> [] then g Fire_wakeup else [])"
    by (simp add: wakeup_callback_props(1)[of g, OF assms(2)])
  have pipe2: "wakeup_pipe ?w2 = []"
    by (simp add: wakeup_callback_props(2)[of wakeup_of])
  have sel2: "selecting ?w2 = (if wakeup_pipe w \<noteq> [] then 0 else selecting w)"
    by (simp add: wakeup_callback_props(3)[of wakeup_of])
  from da p2 assms(3,4) w'
  show "proj g w' = proj g w @ g (Ev_loop_oneshot l) @ (if wakeup_pipe w \<noteq> [] then g Fire_wakeup else [])"
    by simp
  from da pipe2 w' show "wakeup_pipe w' = []" by simp
  from da sel2 w' show "selecting w' = (if wakeup_pipe w \<noteq> [] then 0 else selecting w)" by simp
  from w' show "clock w' = now it" by simp
  from da show "\<forall>e. out = Raise e \<longrightarrow>
           (\<exists>f r. blk = Some f \<and> r \<in> fst ` set (fired it) \<and> f r = Visit_raises e)" by simp
qed

lemma engine_iteration_Return:
  assumes "engine_iteration blk l it w = (Return u, w')"
    and "\<And>fd n. g (Sys_read fd n) = []"
  shows "proj g w' = proj g w @ g (Ev_loop_oneshot l)
           @ (if wakeup_pipe w \<noteq> [] then g Fire_wakeup else [])
           @ concat (map g (concat (map (cb_events (blk \<noteq> None)) (fired it))))"
    and "ready_count w' = ready_count w + int (length (fired it))"
    and "ready_array w' = (if blk \<noteq> None then ready_array w
                           else map_option (\<lambda>xs. xs @ map fst (fired it)) (ready_array w))"
proof -
  let ?w1 = "emit (Ev_loop_oneshot l) w"
  let ?w2 = "if wakeup_pipe ?w1 \<noteq> [] then NIO_Selector_wakeup_callback (emit Fire_wakeup ?w1) else ?w1"
  obtain w3 where d: "dispatch blk (fired it) ?w2 = (Return u, w3)" and w': "w' = w3\<lparr>clock := now it\<rparr>"
    using assms(1) by (auto simp: engine_iteration_def Let_def split: prod.splits)
  note dr = dispatch_Return[OF d]
  have p2: "proj g ?w2 = proj g w @ g (Ev_loop_oneshot l) @ (if wakeup_pipe w \<noteq> [] then g Fire_wakeup else [])"
    by (simp add: wakeup_callback_props(1)[of g, OF assms(2)])
  have rc2: "ready_count ?w2 = ready_count w" "ready_array ?w2 = ready_array w"
    by (simp_all add: wakeup_callback_props(4,5)[of wakeup_of])
  from dr have "proj g w3 = proj g ?w2 @ concat (map g (concat (map (cb_events (blk \<noteq> None)) (fired it))))"
    by (simp add: proj_def)
  with p2 w'
  show "proj g w' = proj g w @ g (Ev_loop_oneshot l)
           @ (if wakeup_pipe w \<noteq> [] then g Fire_wakeup else [])
           @ concat (map g (concat (map (cb_events (blk \<noteq> None)) (fired it))))"
    by simp
  from dr rc2 w' show "ready_count w' = ready_count w + int (length (fired it))" by simp
  from dr rc2 w' show "ready_array w' = (if blk \<noteq> None then ready_array w
                           else map_option (\<lambda>xs. xs @ map fst (fired it)) (ready_array w))"
    by simp
qed

lemma dispatch_monitors:
  assumes "\<forall>p\<in>set evs. \<exists>m. monitors w (fst p) = Some m \<and> selector m"
    and "distinct (map fst evs)" and "blk \<noteq> None \<or> ready_array w \<noteq> None"
    and "\<forall>f. blk = Some f \<longrightarrow> (\<forall>p\<in>set evs. f (fst p) = Visit_returns)"
  shows "\<exists>w'. dispatch blk evs w = (Return (), w')
           \<and> (\<forall>r. monitors w' r = (case map_of evs r of
                                       None \<Rightarrow> monitors w r
                                     | Some ev \<Rightarrow> map_option (\<lambda>m. m\<lparr>revents := ev\<rparr>) (monitors w r)))"
  using assms
proof (induction evs arbitrary: w)
  case Nil
  then show ?case by simp
next
  case (Cons p evs)
  obtain r ev where p: "p = (r, ev)" by (cases p)
  from Cons.prems(1) p obtain m where m: "monitors w r = Some m" "selector m" by auto
  let ?w0 = "emit (Fire_monitor r ev) w"
  have "\<exists>w1. NIO_Selector_monitor_callback blk r ev ?w0 = (Return (), w1)"
    using m Cons.prems(3,4) p
    by (cases blk; cases "ready_array w")
       (simp_all add: NIO_Selector_monitor_callback_def Let_def)
  then obtain w1 where c: "NIO_Selector_monitor_callback blk r ev ?w0 = (Return (), w1)" ..
  from monitor_callback_Return(3,4)[OF c] m
  have m1: "monitors w1 = (monitors w)(r \<mapsto> m\<lparr>revents := ev\<rparr>)"
    and a1: "blk \<noteq> None \<or> ready_array w1 \<noteq> None"
    using Cons.prems(3) by auto
  from Cons.prems(2) p have notin: "r \<notin> fst ` set evs" and d: "distinct (map fst evs)" by auto
  have v1: "\<forall>p\<in>set evs. \<exists>m. monitors w1 (fst p) = Some m \<and> selector m"
    using Cons.prems(1) notin m1 by (auto simp: image_iff)
  have q1: "\<forall>f. blk = Some f \<longrightarrow> (\<forall>p\<in>set evs. f (fst p) = Visit_returns)"
    using Cons.prems(4) by simp
  from Cons.IH[OF v1 d a1 q1] obtain w' where
    w': "dispatch blk evs w1 = (Return (), w')"
    and mo: "\<forall>r. monitors w' r = (case map_of evs r of
                                       None \<Rightarrow> monitors w1 r
                                     | Some ev \<Rightarrow> map_option (\<lambda>m. m\<lparr>revents := ev\<rparr>) (monitors w1 r))"
    by blast
  have none: "map_of evs r = None" using notin by (simp add: map_of_eq_None_iff)
  have "dispatch blk (p # evs) w = (Return (), w')" using p c w' by simp
  moreover have "\<forall>r'. monitors w' r' = (case map_of (p # evs) r' of
                                       None \<Rightarrow> monitors w r'
                                     | Some ev \<Rightarrow> map_option (\<lambda>m. m\<lparr>revents := ev\<rparr>) (monitors w r'))"
    using mo m1 m none p by (auto split: option.splits)
  ultimately show ?case by blast
qed

lemma wakeups_props:
  "closed_flag w = 0 \<Longrightarrow> length (wakeup_pipe w) + n \<le> pipe_capacity w \<Longrightarrow>
     \<exists>wn. wakeups n w = Some wn
       \<and> wakeup_pipe wn = wakeup_pipe w @ replicate n 0
       \<and> proj g wn = proj g w @ concat (replicate n (g (Sys_write (wakeup_writer w))))
       \<and> closed_flag wn = 0 \<and> pipe_capacity wn = pipe_capacity w"
proof (induction n arbitrary: w)
  case 0
  then show ?case by simp
next
  case (Suc n)
  let ?w1 = "(emit (Sys_write (wakeup_writer w)) w)\<lparr>wakeup_pipe := wakeup_pipe w @ [0]\<rparr>"
  from Suc.prems have w1: "NIO_Selector_wakeup w = Some (Return Qnil, ?w1)"
    by (simp add: NIO_Selector_wakeup_def)
  have c1: "closed_flag ?w1 = 0" and wr: "wakeup_writer ?w1 = wakeup_writer w"
    and cap: "length (wakeup_pipe ?w1) + n \<le> pipe_capacity ?w1"
    using Suc.prems by simp_all
  from Suc.IH[OF c1 cap] w1 wr show ?case
    by (auto simp: replicate_append_same)
qed

lemma wakeups_add:
  "wakeups (m + n) w = (case wakeups m w of None \<Rightarrow> None | Some w1 \<Rightarrow> wakeups n w1)"
  by (induction m arbitrary: w) (auto split: option.splits)

subsection \<open>Readiness events and wakeups\<close>

lemma count_list_distinct: "distinct xs \<Longrightarrow> x \<in> set xs \<Longrightarrow> count_list xs x = 1"
  by (induction xs) auto

text \<open>
  Claim C2. Take one iteration of the engine in which the Monitors reported ready are
  distinct watchers, each the live Monitor that the table holds for its handle, and in
  which the block, if one is given, returns normally for each of them (without calling
  back into the selector). Then the callback
  runs once for each ready handle: the ready count grows by the number of ready handles,
  each Monitor holds the flags observed for it, and the Monitors are yielded to the block
  (when a block is given) or appended to the ready array (when none is given), so that
  every ready handle occurs exactly once among the handles of the Monitors delivered. The
  order is the one the engine reports; nothing is claimed about it.
\<close>

theorem readiness_events:
  assumes live: "\<forall>p\<in>set (fired it). \<exists>m. monitors w (fst p) = Some m \<and> selector m
                     \<and> selectables w (io m) = Some (fst p)"
    and dist: "distinct (map fst (fired it))"
    and arr: "blk \<noteq> None \<or> ready_array w \<noteq> None"
    and ret: "\<forall>f. blk = Some f \<longrightarrow> (\<forall>p\<in>set (fired it). f (fst p) = Visit_returns)"
  shows "\<exists>w'. engine_iteration blk l it w = (Return (), w')
     \<and> ready_count w' = ready_count w + int (length (fired it))
     \<and> (\<forall>p\<in>set (fired it). \<exists>m. monitors w' (fst p) = Some m \<and> revents m = snd p)
     \<and> proj monitor_of w' = proj monitor_of w @ map fst (fired it)
     \<and> (blk \<noteq> None \<longrightarrow> proj yield_of w' = proj yield_of w @ map fst (fired it)
                \<and> ready_array w' = ready_array w)
     \<and> (blk = None \<longrightarrow> ready_array w' = map_option (\<lambda>xs. xs @ map fst (fired it)) (ready_array w)
                \<and> proj yield_of w' = proj yield_of w)
     \<and> (\<forall>p\<in>set (fired it).
           count_list (map (handle_of w) (map fst (fired it))) (handle_of w (fst p)) = 1)"
proof -
  define w2 where "w2 = (if wakeup_pipe (emit (Ev_loop_oneshot l) w) \<noteq> []
      then NIO_Selector_wakeup_callback (emit Fire_wakeup (emit (Ev_loop_oneshot l) w))
      else emit (Ev_loop_oneshot l) w)"
  have mo2: "monitors w2 = monitors w" and ra2: "ready_array w2 = ready_array w"
    by (simp_all add: w2_def wakeup_callback_props(5,6)[of wakeup_of])
  have v2: "\<forall>p\<in>set (fired it). \<exists>m. monitors w2 (fst p) = Some m \<and> selector m"
    using live by (auto simp: mo2)
  have a2: "blk \<noteq> None \<or> ready_array w2 \<noteq> None" using arr by (simp add: ra2)
  from dispatch_monitors[OF v2 dist a2 ret]
  obtain w3 where d: "dispatch blk (fired it) w2 = (Return (), w3)"
    and mo3': "\<forall>r. monitors w3 r = (case map_of (fired it) r of
                                       None \<Rightarrow> monitors w2 r
                                     | Some ev \<Rightarrow> map_option (\<lambda>m. m\<lparr>revents := ev\<rparr>) (monitors w2 r))"
    by blast
  have mo3: "\<forall>r. monitors w3 r = (case map_of (fired it) r of
                                       None \<Rightarrow> monitors w r
                                     | Some ev \<Rightarrow> map_option (\<lambda>m. m\<lparr>revents := ev\<rparr>) (monitors w r))"
    using mo3' unfolding mo2 by blast
  let ?w' = "w3\<lparr>clock := now it\<rparr>"
  have e: "engine_iteration blk l it w = (Return (), ?w')"
    using d by (simp add: engine_iteration_def Let_def w2_def)
  have rev: "\<forall>p\<in>set (fired it). \<exists>m. monitors ?w' (fst p) = Some m \<and> revents m = snd p"
  proof
    fix p assume p: "p \<in> set (fired it)"
    with dist have "map_of (fired it) (fst p) = Some (snd p)" by (cases p) simp
    moreover from live p obtain m where "monitors w (fst p) = Some m" by blast
    ultimately show "\<exists>m. monitors ?w' (fst p) = Some m \<and> revents m = snd p"
      using mo3 by simp
  qed
  have inj: "inj_on (handle_of w) (set (map fst (fired it)))"
  proof (rule inj_onI)
    fix r1 r2
    assume r1: "r1 \<in> set (map fst (fired it))" and r2: "r2 \<in> set (map fst (fired it))"
      and eq: "handle_of w r1 = handle_of w r2"
    from r1 live obtain m1 where m1: "monitors w r1 = Some m1" "selectables w (io m1) = Some r1"
      by auto
    from r2 live obtain m2 where m2: "monitors w r2 = Some m2" "selectables w (io m2) = Some r2"
      by auto
    from eq m1 m2 have "io m1 = io m2" by (simp add: handle_of_def)
    with m1 m2 show "r1 = r2" by simp
  qed
  have dh: "distinct (map (handle_of w) (map fst (fired it)))"
    using dist inj by (subst distinct_map) blast
  have once: "\<forall>p\<in>set (fired it).
           count_list (map (handle_of w) (map fst (fired it))) (handle_of w (fst p)) = 1"
  proof
    fix p assume "p \<in> set (fired it)"
    then have "handle_of w (fst p) \<in> set (map (handle_of w) (map fst (fired it)))" by simp
    with dh show "count_list (map (handle_of w) (map fst (fired it))) (handle_of w (fst p)) = 1"
      by (rule count_list_distinct)
  qed
  note r = engine_iteration_Return[OF e]
  have pm: "proj monitor_of ?w' = proj monitor_of w @ map fst (fired it)"
    using r(1)[of monitor_of] by (simp add: cb_events_monitor_of)
  have py: "proj yield_of ?w' = proj yield_of w @ (if blk \<noteq> None then map fst (fired it) else [])"
    using r(1)[of yield_of] by (simp add: cb_events_yield_of)
  have rc: "ready_count ?w' = ready_count w + int (length (fired it))"
    using r(2)[of wakeup_of] by simp
  have ra: "ready_array ?w' = (if blk \<noteq> None then ready_array w
                           else map_option (\<lambda>xs. xs @ map fst (fired it)) (ready_array w))"
    using r(3)[of wakeup_of] by simp
  show ?thesis
    using e rev once pm py rc ra by (intro exI[of _ ?w']) simp
qed

theorem readiness_events_witness:
  "distinct (map fst [(1 :: ref, 2 :: int), (0, 1)])
   \<and> ready_array (two_monitors\<lparr>ready_array := Some []\<rparr>) \<noteq> None
   \<and> selectables two_monitors 7 = Some 0 \<and> selectables two_monitors 8 = Some 1
   \<and> map_option io (monitors two_monitors 0) = Some 7
   \<and> map_option io (monitors two_monitors 1) = Some 8
   \<and> fst (engine_iteration None 1 \<lparr>fired = [(1, 2), (0, 1)], now = 5\<rparr>
            (two_monitors\<lparr>ready_array := Some []\<rparr>)) = Return ()
   \<and> ready_count (snd (engine_iteration None 1 \<lparr>fired = [(1, 2), (0, 1)], now = 5\<rparr>
            (two_monitors\<lparr>ready_array := Some []\<rparr>))) = 2
   \<and> ready_array (snd (engine_iteration None 1 \<lparr>fired = [(1, 2), (0, 1)], now = 5\<rparr>
            (two_monitors\<lparr>ready_array := Some []\<rparr>))) = Some [1, 0]
   \<and> map_option revents (monitors (snd (engine_iteration None 1 \<lparr>fired = [(1, 2), (0, 1)], now = 5\<rparr>
            (two_monitors\<lparr>ready_array := Some []\<rparr>))) 1) = Some 2
   \<and> map (handle_of two_monitors) [1, 0] = [Some 8, Some 7]
   \<and> proj yield_of (snd (engine_iteration (Some (\<lambda>r. Visit_returns)) 1
            \<lparr>fired = [(1, 2), (0, 1)], now = 5\<rparr> two_monitors)) = [1, 0]
   \<and> ready_count (snd (engine_iteration (Some (\<lambda>r. Visit_returns)) 1
            \<lparr>fired = [(1, 2), (0, 1)], now = 5\<rparr> two_monitors)) = 2"
  using readiness_events[of "\<lparr>fired = [(1, 2), (0, 1)], now = 5\<rparr>"
          "two_monitors\<lparr>ready_array := Some []\<rparr>" None 1]
    readiness_events[of "\<lparr>fired = [(1, 2), (0, 1)], now = 5\<rparr>"
          two_monitors "Some (\<lambda>r. Visit_returns)" 1]
  by (simp add: two_monitors_def fresh_selector_def call_defs proj_def handle_of_def)

text \<open>
  Claim C4 as stated (any number of wakeups before the loop observes them is coalesced
  into one interruption) fails on a pipe of 65536 bytes: of 65537 calls of \<^verbatim>\<open>wakeup\<close>
  in a row on the fresh selector one does not come back, because the write end of the
  pipe is blocking and the pipe is full.
\<close>

theorem wakeups_overflow:
  "closed_flag fresh_selector = 0 \<and> wakeups 65537 fresh_selector = None"
proof -
  have c: "closed_flag fresh_selector = 0" by (simp add: fresh_selector_def)
  have "length (wakeup_pipe fresh_selector) + 65536 \<le> pipe_capacity fresh_selector"
    by (simp add: fresh_selector_def)
  from wakeups_props[OF c this, of wakeup_of] obtain wn where
    wn: "wakeups 65536 fresh_selector = Some wn"
    and p: "wakeup_pipe wn = wakeup_pipe fresh_selector @ replicate 65536 0"
    and q: "closed_flag wn = 0" "pipe_capacity wn = pipe_capacity fresh_selector"
    by blast
  from p q have "NIO_Selector_wakeup wn = None"
    by (simp add: NIO_Selector_wakeup_def fresh_selector_def)
  then have "wakeups (Suc 0) wn = None" by simp
  with wn have "wakeups (65536 + Suc 0) fresh_selector = None"
    by (simp only: wakeups_add option.case)
  with c show ?thesis by simp
qed

text \<open>
  Claim C4, amended. \<^verbatim>\<open>wakeup\<close> on an open selector whose pipe has room writes a
  single byte to the write end; on a full pipe it does not come back until a reader has
  drained the pipe. The wakeup callback sets \<open>selecting\<close> to 0 and empties the pipe. So
  after \<open>n \<ge> 1\<close> wakeups that fit into the pipe the next iteration of the engine invokes
  the wakeup callback once, whatever \<open>n\<close> is, and the iteration after that, with no
  further wakeup in between, does not invoke it again.
\<close>

theorem wakeups_coalesce:
  "(closed_flag w = 0 \<and> pipe_capacity w \<le> length (wakeup_pipe w) \<longrightarrow> NIO_Selector_wakeup w = None)
   \<and> (closed_flag w = 0 \<and> length (wakeup_pipe w) < pipe_capacity w \<longrightarrow>
        NIO_Selector_wakeup w =
          Some (Return Qnil, w\<lparr>trace := trace w @ [Sys_write (wakeup_writer w)],
                                wakeup_pipe := wakeup_pipe w @ [0]\<rparr>))
   \<and> selecting (NIO_Selector_wakeup_callback w) = 0
   \<and> wakeup_pipe (NIO_Selector_wakeup_callback w) = []
   \<and> (closed_flag w = 0 \<and> 0 < n \<and> length (wakeup_pipe w) + n \<le> pipe_capacity w \<longrightarrow>
        (\<exists>wn. wakeups n w = Some wn
           \<and> wakeup_pipe wn = wakeup_pipe w @ replicate n 0
           \<and> length (proj wakeup_of wn) = length (proj wakeup_of w)
           \<and> length (proj wakeup_of (snd (engine_iteration blk l it1 wn)))
               = length (proj wakeup_of w) + 1
           \<and> selecting (snd (engine_iteration blk l it1 wn)) = 0
           \<and> wakeup_pipe (snd (engine_iteration blk l it1 wn)) = []
           \<and> length (proj wakeup_of (snd (engine_iteration blk' l it2
                                            (snd (engine_iteration blk l it1 wn)))))
               = length (proj wakeup_of w) + 1))"
proof -
  have a: "closed_flag w = 0 \<and> pipe_capacity w \<le> length (wakeup_pipe w) \<longrightarrow> NIO_Selector_wakeup w = None"
    by (simp add: NIO_Selector_wakeup_def)
  have b: "closed_flag w = 0 \<and> length (wakeup_pipe w) < pipe_capacity w \<longrightarrow>
        NIO_Selector_wakeup w =
          Some (Return Qnil, w\<lparr>trace := trace w @ [Sys_write (wakeup_writer w)],
                                wakeup_pipe := wakeup_pipe w @ [0]\<rparr>)"
    by (simp add: NIO_Selector_wakeup_def emit_def)
  have c: "selecting (NIO_Selector_wakeup_callback w) = 0"
    "wakeup_pipe (NIO_Selector_wakeup_callback w) = []"
    by (simp_all add: wakeup_callback_props(2,3)[of wakeup_of])
  have d: "\<exists>wn. wakeups n w = Some wn
           \<and> wakeup_pipe wn = wakeup_pipe w @ replicate n 0
           \<and> length (proj wakeup_of wn) = length (proj wakeup_of w)
           \<and> length (proj wakeup_of (snd (engine_iteration blk l it1 wn)))
               = length (proj wakeup_of w) + 1
           \<and> selecting (snd (engine_iteration blk l it1 wn)) = 0
           \<and> wakeup_pipe (snd (engine_iteration blk l it1 wn)) = []
           \<and> length (proj wakeup_of (snd (engine_iteration blk' l it2
                                            (snd (engine_iteration blk l it1 wn)))))
               = length (proj wakeup_of w) + 1"
    if h: "closed_flag w = 0" "0 < n" "length (wakeup_pipe w) + n \<le> pipe_capacity w"
  proof -
    from wakeups_props[OF h(1,3), of wakeup_of] obtain wn where
      wn: "wakeups n w = Some wn"
      and p: "wakeup_pipe wn = wakeup_pipe w @ replicate n 0"
      and q: "proj wakeup_of wn = proj wakeup_of w"
      by auto
    from p h(2) have ne: "wakeup_pipe wn \<noteq> []" by simp
    obtain out1 w1 where e1: "engine_iteration blk l it1 wn = (out1, w1)"
      by (cases "engine_iteration blk l it1 wn")
    obtain out2 w2 where e2: "engine_iteration blk' l it2 w1 = (out2, w2)"
      by (cases "engine_iteration blk' l it2 w1")
    note i1 = engine_iteration_any[OF e1, of wakeup_of]
    note i2 = engine_iteration_any[OF e2, of wakeup_of]
    from wn p q ne e1 e2 i1(1,2,3) i2(1) show ?thesis
      by (intro exI[of _ wn]) simp
  qed
  from a b c d show ?thesis by blast
qed

theorem wakeups_coalesce_witness:
  "closed_flag fresh_selector = 0 \<and> (0 :: nat) < 3
   \<and> length (wakeup_pipe fresh_selector) + 3 \<le> pipe_capacity fresh_selector
   \<and> map_option wakeup_pipe (wakeups 3 fresh_selector) = Some [0, 0, 0]
   \<and> pipe_capacity (fresh_selector\<lparr>wakeup_pipe := [0, 0], pipe_capacity := 2\<rparr>) \<le> length [0 :: 8 word, 0]
   \<and> NIO_Selector_wakeup (fresh_selector\<lparr>wakeup_pipe := [0, 0], pipe_capacity := 2\<rparr>) = None
   \<and> length (proj wakeup_of (snd (engine_iteration None 1 \<lparr>fired = [], now = 1\<rparr>
               (the (wakeups 3 fresh_selector))))) = 1
   \<and> wakeup_pipe (snd (engine_iteration None 1 \<lparr>fired = [], now = 1\<rparr>
               (the (wakeups 3 fresh_selector)))) = []
   \<and> length (proj wakeup_of (snd (engine_iteration None 1 \<lparr>fired = [], now = 2\<rparr>
               (snd (engine_iteration None 1 \<lparr>fired = [], now = 1\<rparr>
               (the (wakeups 3 fresh_selector))))))) = 1"
  using wakeups_coalesce[of fresh_selector 3 None 1 "\<lparr>fired = [], now = 1\<rparr>" None
          "\<lparr>fired = [], now = 2\<rparr>"]
    wakeups_coalesce[of "fresh_selector\<lparr>wakeup_pipe := [0, 0], pipe_capacity := 2\<rparr>" 3 None 1
          "\<lparr>fired = [], now = 1\<rparr>" None "\<lparr>fired = [], now = 2\<rparr>"]
  by (auto simp: fresh_selector_def proj_def NIO_Selector_wakeup_def emit_def numeral_3_eq_3)

subsection \<open>What a select call accumulates\<close>

lemma accum_trans: "accum bg w w1 rs1 \<Longrightarrow> accum bg w1 w2 rs2 \<Longrightarrow> accum bg w w2 (rs1 @ rs2)"
  by (cases "ready_array w") (auto simp: accum_def)

lemma accum_same:
  "proj monitor_of w' = proj monitor_of w \<Longrightarrow> ready_count w' = ready_count w
   \<Longrightarrow> ready_array w' = ready_array w \<Longrightarrow> accum bg w w' []"
  by (cases "ready_array w") (auto simp: accum_def)

lemma engine_iteration_accum:
  assumes "engine_iteration blk l it w = (Return u, w')"
  shows "accum (blk \<noteq> None) w w' (map fst (fired it))"
  using engine_iteration_Return[OF assms, of monitor_of]
  by (simp add: accum_def cb_events_monitor_of)

lemma engine_iteration_raise:
  assumes "engine_iteration blk l it w = (Raise e, w')"
  shows "raised_by blk e"
  using engine_iteration_any(5)[OF assms, of wakeup_of] by (auto simp: raised_by_def)

lemma busy_wait_accum:
  "busy_wait blk l t s its w = Some (out, w') \<Longrightarrow>
     (\<forall>e. out = Raise e \<longrightarrow> raised_by blk e)
     \<and> ((\<exists>u. out = Return u) \<longrightarrow> (\<exists>rs. accum (blk \<noteq> None) w w' rs))"
proof (induction its arbitrary: w)
  case Nil
  then show ?case by (auto split: if_splits intro: accum_same)
next
  case (Cons it its)
  show ?case
  proof (cases "selecting w \<noteq> 0 \<and> ready_count w = 0")
    case False
    with Cons.prems show ?thesis by (auto intro: accum_same)
  next
    case True
    obtain o1 w1 where e: "engine_iteration blk l it w = (o1, w1)"
      by (cases "engine_iteration blk l it w")
    show ?thesis
    proof (cases o1)
      case (Return u)
      from engine_iteration_accum[OF e[unfolded Return]]
      have a1: "accum (blk \<noteq> None) w (emit Thread_schedule w1) (map fst (fired it))"
        by (simp add: accum_def)
      from Cons.prems True e Return
      have "busy_wait blk l t s its (emit Thread_schedule w1) = Some (out, w')
            \<or> (out, w') = (Return (), emit Thread_schedule w1)"
        by (auto simp: Let_def split: option.splits if_splits)
      then show ?thesis
      proof
        assume "busy_wait blk l t s its (emit Thread_schedule w1) = Some (out, w')"
        from Cons.IH[OF this] a1 show ?thesis by (auto dest: accum_trans)
      next
        assume "(out, w') = (Return (), emit Thread_schedule w1)"
        with a1 show ?thesis by auto
      qed
    next
      case (Raise e')
      from engine_iteration_raise[OF e[unfolded Raise]] have "raised_by blk e'" .
      with Cons.prems True e Raise show ?thesis by auto
    next
      case (Crash f)
      with Cons.prems True e show ?thesis by auto
    qed
  qed
qed

lemma run_blocking_accum:
  assumes "run_blocking blk l t its w = Some (out, w')"
  shows "(\<forall>e. out = Raise e \<longrightarrow> raised_by blk e)
         \<and> ((\<exists>u. out = Return u) \<longrightarrow> (\<exists>rs. accum (blk \<noteq> None) w w' rs))"
proof -
  define w1 where "w1 = (case t of Some t' \<Rightarrow> emit (Ev_timer_again l (bin64 (NUM2DBL t' + bin64 (1 / 10000)))) w
                         | None \<Rightarrow> emit (Ev_timer_stop l) w)"
  have a0: "accum (blk \<noteq> None) w w1 []" by (rule accum_same) (simp_all add: w1_def split: option.splits)
  from assms obtain it rest where e: "engine_iteration blk l it w1 = (out, w')"
    by (auto simp: run_blocking_def Let_def w1_def split: list.splits)
  have "raised_by blk e'" if "out = Raise e'" for e'
    using engine_iteration_raise[OF e[unfolded that]] .
  moreover have "\<exists>rs. accum (blk \<noteq> None) w w' rs" if "out = Return u" for u
    using engine_iteration_accum[OF e[unfolded that]] a0 by (auto dest: accum_trans)
  ultimately show ?thesis by auto
qed

lemma run_busy_wait_accum:
  assumes "run_busy_wait blk l t its w = Some (out, w')"
  shows "(\<forall>e. out = Raise e \<longrightarrow> raised_by blk e)
         \<and> ((\<exists>u. out = Return u) \<longrightarrow> (\<exists>rs. accum (blk \<noteq> None) w w' rs))"
proof -
  define w1 where "w1 = emit (Ev_timer_start l (bin64 (1 / 100)) (bin64 (1 / 100))) w"
  have a0: "accum (blk \<noteq> None) w w1 []" by (rule accum_same) (simp_all add: w1_def)
  from assms obtain o2 w2 where b: "busy_wait blk l t (ev_now w) its w1 = Some (o2, w2)"
    and ow: "(\<exists>u. o2 = Return u \<and> out = Return () \<and> w' = emit (Ev_timer_stop l) w2)
             \<or> ((\<forall>u. o2 \<noteq> Return u) \<and> out = o2 \<and> w' = w2)"
    by (auto simp: run_busy_wait_def Let_def w1_def split: option.splits outcome.splits)
  note ba = busy_wait_accum[OF b]
  from ow show ?thesis
  proof
    assume "\<exists>u. o2 = Return u \<and> out = Return () \<and> w' = emit (Ev_timer_stop l) w2"
    then obtain u where o2: "o2 = Return u" and out: "out = Return ()"
      and w': "w' = emit (Ev_timer_stop l) w2" by blast
    from ba o2 obtain rs where "accum (blk \<noteq> None) w1 w2 rs" by auto
    with a0 have "accum (blk \<noteq> None) w w2 rs" by (auto dest: accum_trans)
    then have "accum (blk \<noteq> None) w w' rs" by (simp add: accum_def w')
    with out show ?thesis by auto
  next
    assume "(\<forall>u. o2 \<noteq> Return u) \<and> out = o2 \<and> w' = w2"
    with ba show ?thesis by auto
  qed
qed

lemma run_result:
  assumes "NIO_Selector_run b blk t its w = Some (out, w')"
  shows "\<forall>e. out = Raise e \<longrightarrow> raised_by blk e"
    and "out = Return ready \<Longrightarrow>
           \<exists>rs. ready = ready_count w + int (length rs)
              \<and> proj monitor_of w' = proj monitor_of w @ rs
              \<and> ready_array w' = (if blk \<noteq> None then ready_array w
                                   else map_option (\<lambda>xs. xs @ rs) (ready_array w))
              \<and> ready_count w' = 0 \<and> selecting w' = 0"
proof -
  let ?w1 = "w\<lparr>selecting := 1\<rparr>"
  have a0: "accum (blk \<noteq> None) w ?w1 []" by (rule accum_same) simp_all
  show "\<forall>e. out = Raise e \<longrightarrow> raised_by blk e"
  proof (cases "ev_loop w")
    case None
    with assms show ?thesis by (auto simp: NIO_Selector_run_def Let_def)
  next
    case (Some l)
    with assms obtain o2 w2 where
      r: "(case b of Blocking_region \<Rightarrow> run_blocking blk l t its ?w1
                   | Green_threads \<Rightarrow> run_busy_wait blk l t its ?w1) = Some (o2, w2)"
      and ow: "(\<exists>e. o2 = Raise e \<and> out = Raise e) \<or> (\<exists>f. o2 = Crash f \<and> out = Crash f)
               \<or> (\<exists>u n. o2 = Return u \<and> out = Return n)"
      by (auto simp: NIO_Selector_run_def Let_def split: option.splits outcome.splits)
    from r have "\<forall>e. o2 = Raise e \<longrightarrow> raised_by blk e"
      by (cases b) (auto dest: run_blocking_accum run_busy_wait_accum)
    with ow show ?thesis by auto
  qed
  show "\<exists>rs. ready = ready_count w + int (length rs)
              \<and> proj monitor_of w' = proj monitor_of w @ rs
              \<and> ready_array w' = (if blk \<noteq> None then ready_array w
                                   else map_option (\<lambda>xs. xs @ rs) (ready_array w))
              \<and> ready_count w' = 0 \<and> selecting w' = 0"
    if out: "out = Return ready"
  proof (cases "ev_loop w")
    case None
    with assms out show ?thesis by (auto simp: NIO_Selector_run_def Let_def)
  next
    case (Some l)
    with assms out obtain u w2 where
      r: "(case b of Blocking_region \<Rightarrow> run_blocking blk l t its ?w1
                   | Green_threads \<Rightarrow> run_busy_wait blk l t its ?w1) = Some (Return u, w2)"
      and rd: "ready = ready_count w2" and w': "w' = w2\<lparr>selecting := 0, ready_count := 0\<rparr>"
      by (auto simp: NIO_Selector_run_def Let_def split: option.splits outcome.splits)
    from r obtain rs where "accum (blk \<noteq> None) ?w1 w2 rs"
      by (cases b) (auto dest: run_blocking_accum run_busy_wait_accum)
    with a0 have "accum (blk \<noteq> None) w w2 rs" by (auto dest: accum_trans)
    with rd w' show ?thesis by (intro exI[of _ rs]) (simp add: accum_def)
  qed
qed


lemma select_synchronized_result:
  assumes "NIO_Selector_select_synchronized b blk t its w = Some (Return v, w')"
    and "ready_count w = 0" and "ready_array w = None"
  shows "\<exists>rs. proj monitor_of w' = proj monitor_of w @ rs
              \<and> v = (if rs = [] then Qnil else if blk \<noteq> None then Fixnum (int (length rs)) else Ary rs)
              \<and> ready_array w' = None \<and> ready_count w' = 0"
proof -
  let ?w1 = "if blk = None then w\<lparr>ready_array := Some []\<rparr> else w"
  from assms(1) obtain o2 w2 where r: "NIO_Selector_run b blk t its ?w1 = Some (o2, w2)"
    by (auto simp: NIO_Selector_select_synchronized_def Let_def split: option.splits)
  from assms(1) r obtain ready where o2: "o2 = Return ready"
    by (cases o2) (auto simp: NIO_Selector_select_synchronized_def Let_def)
  from run_result(2)[OF r o2] assms(2,3) obtain rs where
    rd: "ready = int (length rs)"
    and pm: "proj monitor_of w2 = proj monitor_of w @ rs"
    and ra: "ready_array w2 = (if blk \<noteq> None then None else Some rs)"
    and rc: "ready_count w2 = 0"
    by (auto split: if_splits)
  from assms(1) r o2 rd ra rc pm show ?thesis
    by (intro exI[of _ rs])
       (auto simp: NIO_Selector_select_synchronized_def Let_def split: if_splits)
qed

subsection \<open>Calls from outside the lock\<close>

lemma synchronize_taken:
  assumes s: "NIO_Selector_synchronize cur func w = Some (out, w')"
    and free: "lock w = None" "lock_holder w \<noteq> Some cur"
    and frame: "\<And>s o1 s'. func s = Some (o1, s') \<Longrightarrow> lock s' = lock s"
  shows "\<exists>o1 w1. func (w\<lparr>lock := Some cur, lock_holder := Some cur\<rparr>) = Some (o1, w1)
           \<and> out = map_outcome Retval o1
           \<and> (if \<exists>f. o1 = Crash f then w' = w1 else w' = w1\<lparr>lock_holder := None, lock := None\<rparr>)"
proof -
  let ?w2 = "w\<lparr>lock := Some cur, lock_holder := Some cur\<rparr>"
  from s free have e: "map_option (\<lambda>(out, w3). (map_outcome Retval out, w3))
               (rb_ensure func (NIO_Selector_unlock cur) ?w2) = Some (out, w')"
    by (simp add: NIO_Selector_synchronize_def Mutex_lock_def)
  then obtain o1 w1 where f: "func ?w2 = Some (o1, w1)"
    by (auto simp: rb_ensure_def split: option.splits)
  from frame[OF f] have l1: "lock w1 = Some cur" by simp
  from e f l1 show ?thesis
    by (cases o1)
       (auto simp: rb_ensure_def NIO_Selector_unlock_def Mutex_unlock_def map_outcome_def)
qed

lemma Selector_new_idle: "Selector_new fds cap nb l = Return w \<Longrightarrow> idle w"
  by (auto simp: Selector_new_def NIO_Selector_allocate_def NIO_Selector_initialize_def
        map_outcome_def idle_def split: option.splits if_splits prod.splits)

text \<open>
  The result of a \<^verbatim>\<open>select\<close> that starts with no pending count and no pending array,
  as after \<^verbatim>\<open>new\<close>, and returns. Let \<open>rs\<close> be the Monitors whose readiness callback
  ran during the call. With a block, \<^verbatim>\<open>select\<close> returns the number of them when it is
  positive and nil when it is zero; without a block it returns the array of them when
  there is at least one and nil otherwise. The pending array and count are cleared, so
  the next call starts in the same way.
\<close>

lemma select_result_idle:
  assumes i: "idle w"
    and sel: "NIO_Selector_select b cur timeout blk its w = Some (Return rv, w')"
  shows "\<exists>rs. proj monitor_of w' = proj monitor_of w @ rs
           \<and> rv = Retval (if rs = [] then Qnil
                          else if blk \<noteq> None then Fixnum (int (length rs)) else Ary rs)
           \<and> idle w'"
proof -
  let ?w2 = "w\<lparr>lock := Some cur, lock_holder := Some cur\<rparr>"
  from sel have s: "NIO_Selector_synchronize cur (NIO_Selector_select_synchronized b blk timeout its) w
                      = Some (Return rv, w')"
    by (auto simp: NIO_Selector_select_def split: option.splits if_splits)
  from i have fr: "lock w = None" "lock_holder w \<noteq> Some cur" by (simp_all add: idle_def)
  have frame: "\<And>s o1 s'. NIO_Selector_select_synchronized b blk timeout its s = Some (o1, s') \<Longrightarrow> lock s' = lock s"
    by (auto dest!: select_synchronized_frame simp: run_frame_def)
  from synchronize_taken[OF s fr] frame obtain o1 w1 where
    f: "NIO_Selector_select_synchronized b blk timeout its ?w2 = Some (o1, w1)"
    and out: "Return rv = map_outcome Retval o1"
    and w': "if \<exists>f. o1 = Crash f then w' = w1 else w' = w1\<lparr>lock_holder := None, lock := None\<rparr>"
    by blast
  from out obtain v where o1: "o1 = Return v" and rv: "rv = Retval v"
    by (cases o1) (auto simp: map_outcome_def)
  from i have z: "ready_count ?w2 = 0" "ready_array ?w2 = None" by (simp_all add: idle_def)
  from select_synchronized_result[OF f[unfolded o1] z] obtain rs where
    "proj monitor_of w1 = proj monitor_of ?w2 @ rs"
    "v = (if rs = [] then Qnil else if blk \<noteq> None then Fixnum (int (length rs)) else Ary rs)"
    "ready_array w1 = None" "ready_count w1 = 0"
    by blast
  with w' o1 rv show ?thesis by (intro exI[of _ rs]) (simp add: idle_def)
qed

text \<open>A call that returns leaves such a state behind, whichever method it is.\<close>

lemma synchronize_idle:
  assumes s: "NIO_Selector_synchronize cur func w = Some (out, w')"
    and i: "idle w"
    and frame: "\<And>s o1 s'. func s = Some (o1, s') \<Longrightarrow> lock s' = lock s"
    and keep: "\<And>s o1 s'. func s = Some (o1, s') \<Longrightarrow> (\<forall>f. o1 \<noteq> Crash f)
                 \<and> ready_count s' = ready_count s \<and> ready_array s' = ready_array s"
  shows "idle w'"
proof -
  from i have fr: "lock w = None" "lock_holder w \<noteq> Some cur" by (simp_all add: idle_def)
  from synchronize_taken[OF s fr] frame obtain o1 w1 where
    f: "func (w\<lparr>lock := Some cur, lock_holder := Some cur\<rparr>) = Some (o1, w1)"
    and w': "if \<exists>f. o1 = Crash f then w' = w1 else w' = w1\<lparr>lock_holder := None, lock := None\<rparr>"
    by blast
  from keep[OF f] w' i show ?thesis by (auto simp: idle_def)
qed

lemma exec_idle:
  assumes e: "exec b c w = Some (Return v, w')" and i: "idle w"
  shows "idle w'"
proof (cases c)
  case (Register cur h i')
  with e have s: "NIO_Selector_synchronize cur (\<lambda>s. Some (NIO_Selector_register_synchronized h i' s)) w
                = Some (Return v, w')" by (simp add: NIO_Selector_register_def)
  show ?thesis
    by (rule synchronize_idle[OF s i])
       (auto simp: NIO_Selector_register_synchronized_def Monitor_new_def split: option.splits)
next
  case (Deregister cur h)
  with e have s: "NIO_Selector_synchronize cur (\<lambda>s. Some (NIO_Selector_deregister_synchronized h s)) w
                = Some (Return v, w')" by (simp add: NIO_Selector_deregister_def)
  show ?thesis
    by (rule synchronize_idle[OF s i])
       (auto simp: NIO_Selector_deregister_synchronized_def emit_def split: option.splits)
next
  case (Is_registered h)
  with e i show ?thesis by (auto simp: lift_plain_def NIO_Selector_is_registered_def)
next
  case (Select cur t blk its)
  with e have "NIO_Selector_select b cur t blk its w = Some (Return v, w')" by simp
  from select_result_idle[OF i this] show ?thesis by blast
next
  case Wakeup
  with e i show ?thesis
    by (auto simp: lift_plain_def NIO_Selector_wakeup_def emit_def idle_def map_outcome_def
             split: if_splits)
next
  case Close
  with e i show ?thesis
    by (auto simp: lift_plain_def NIO_Selector_close_def NIO_Selector_shutdown_def emit_def Let_def
                   idle_def split: if_splits option.splits)
next
  case Closed_p
  with e i show ?thesis by (auto simp: lift_plain_def)
qed

text \<open>
  Claim C1 says that every call of \<^verbatim>\<open>select\<close> returns nil when no handle became
  ready. \<^verbatim>\<open>NIO_Selector_run\<close> resets \<^verbatim>\<open>ready_count\<close> only on its way out, after the
  loop, and not on entry. When the block raises, the exception leaves the run loop before
  that reset, and the count of the interrupted call stays in the selector. On the
  selector with the handles 7 and 8 registered: a \<^verbatim>\<open>select\<close> whose block raises on the
  Monitor of handle 7 leaves \<^verbatim>\<open>ready_count\<close> at 1 with the lock released; the next
  \<^verbatim>\<open>select\<close> with timeout 0, during which no handle is ready, returns an empty array
  when it has no block and the number 1 when it has one, where nil is expected.
\<close>

theorem stale_ready_count:
  "(\<exists>w1. NIO_Selector_select Blocking_region 1 None
             (Some (\<lambda>r. Visit_raises (IOError ''closed stream'')))
             [\<lparr>fired = [(0, 1)], now = 1\<rparr>] two_monitors
           = Some (Raise (IOError ''closed stream''), w1)
        \<and> ready_count w1 = 1 \<and> lock w1 = None \<and> lock_holder w1 = None
        \<and> (\<exists>w2. NIO_Selector_select Blocking_region 1 (Some 0) None
                    [\<lparr>fired = [], now = 2\<rparr>] w1 = Some (Return (Retval (Ary [])), w2)
               \<and> proj monitor_of w2 = proj monitor_of w1)
        \<and> (\<exists>w2. NIO_Selector_select Blocking_region 1 (Some 0) (Some (\<lambda>r. Visit_returns))
                    [\<lparr>fired = [], now = 2\<rparr>] w1 = Some (Return (Retval (Fixnum 1)), w2)
               \<and> proj monitor_of w2 = proj monitor_of w1))
   \<and> (\<exists>w1. NIO_Selector_select Green_threads 1 None
             (Some (\<lambda>r. Visit_raises (IOError ''closed stream'')))
             [\<lparr>fired = [(0, 1)], now = 1\<rparr>] two_monitors
           = Some (Raise (IOError ''closed stream''), w1)
        \<and> ready_count w1 = 1
        \<and> (\<exists>w2. NIO_Selector_select Green_threads 1 (Some 0) None
                    [\<lparr>fired = [], now = 2\<rparr>] w1 = Some (Return (Retval (Ary [])), w2)))"
  by (simp add: two_monitors_def fresh_selector_def call_defs proj_def)

subsection \<open>The timeout of select\<close>







subsection \<open>Where the code departs from its description\<close>

lemma synchronize_reentrant:
  "lock_holder w = Some cur \<Longrightarrow>
     NIO_Selector_synchronize cur func w =
       (case func w of
          None \<Rightarrow> None
        | Some (Return v, w1) \<Rightarrow> Some (Return Indeterminate, w1)
        | Some (Raise e, w1) \<Rightarrow> Some (Raise e, w1)
        | Some (Crash f, w1) \<Rightarrow> Some (Crash f, w1))"
  by (simp add: NIO_Selector_synchronize_def)

text \<open>
  Claim C5 says that after \<^verbatim>\<open>close\<close> the methods \<^verbatim>\<open>select\<close>, \<^verbatim>\<open>register\<close> and
  \<^verbatim>\<open>wakeup\<close> fail or do nothing and never touch the destroyed engine handle. Only
  \<^verbatim>\<open>NIO_Selector_wakeup\<close> tests \<open>closed\<close>. On the closed example selector
  \<^verbatim>\<open>wakeup\<close> raises, but \<^verbatim>\<open>register\<close> succeeds and stores a Monitor, and
  \<^verbatim>\<open>select\<close> hands the nulled \<^verbatim>\<open>ev_loop\<close> to libev, in both builds.
\<close>

theorem closed_selector_still_used:
  "NIO_Selector_closed (snd (NIO_Selector_close fresh_selector)) = Qtrue
   \<and> ev_loop (snd (NIO_Selector_close fresh_selector)) = None
   \<and> map_option fst (NIO_Selector_wakeup (snd (NIO_Selector_close fresh_selector)))
       = Some (Raise (IOError ''selector is closed''))
   \<and> (\<exists>w'. NIO_Selector_register 1 7 Readable (snd (NIO_Selector_close fresh_selector))
               = Some (Return (Retval (Monitor 0)), w')
          \<and> selectables (snd (NIO_Selector_close fresh_selector)) 7 = None
          \<and> selectables w' 7 = Some 0)
   \<and> (\<exists>w'. NIO_Selector_select Blocking_region 1 None None [\<lparr>fired = [], now = 1\<rparr>]
               (snd (NIO_Selector_close fresh_selector)) = Some (Crash Null_ev_loop, w'))
   \<and> (\<exists>w'. NIO_Selector_select Green_threads 1 (Some 1) None [\<lparr>fired = [], now = 1\<rparr>]
               (snd (NIO_Selector_close fresh_selector)) = Some (Crash Null_ev_loop, w'))"
  by (simp add: fresh_selector_def call_defs)

text \<open>
  Claim C6 says that the caller receives the operation's result on both paths of
  \<^verbatim>\<open>NIO_Selector_synchronize\<close>. The branch for a thread that already holds the lock
  is \<^verbatim>\<open>func(args);\<close> with no \<^verbatim>\<open>return\<close>: for thread 1 recorded as lock holder,
  \<^verbatim>\<open>register\<close> creates Monitor 0 inside the lock, and what the method hands back is
  indeterminate. From outside the lock the same call returns the Monitor.
\<close>

theorem reentrant_result_dropped:
  "fst (NIO_Selector_register_synchronized 7 Readable
          (fresh_selector\<lparr>lock := Some 1, lock_holder := Some 1\<rparr>)) = Return (Monitor 0)
   \<and> map_option fst (NIO_Selector_register 1 7 Readable
          (fresh_selector\<lparr>lock := Some 1, lock_holder := Some 1\<rparr>)) = Some (Return Indeterminate)
   \<and> map_option fst (NIO_Selector_register 1 7 Readable fresh_selector)
       = Some (Return (Retval (Monitor 0)))"
  by (simp add: fresh_selector_def call_defs)

subsection \<open>When select comes back\<close>

text \<open>
  Under \<^verbatim>\<open>HAVE_RB_THREAD_BLOCKING_REGION\<close> a call of \<^verbatim>\<open>select\<close> from outside the
  lock on an open selector returns as soon as the engine reports one iteration, when the
  ready handles it reports are distinct and belong to live Monitors and the block returns
  normally on each of them.
\<close>

lemma engine_iteration_returns:
  assumes "\<forall>p\<in>set (fired it). \<exists>m. monitors w (fst p) = Some m \<and> selector m"
    and "distinct (map fst (fired it))" and "blk \<noteq> None \<or> ready_array w \<noteq> None"
    and "\<forall>f. blk = Some f \<longrightarrow> (\<forall>p\<in>set (fired it). f (fst p) = Visit_returns)"
  shows "\<exists>w'. engine_iteration blk l it w = (Return (), w')"
proof -
  define w2 where "w2 = (if wakeup_pipe (emit (Ev_loop_oneshot l) w) \<noteq> []
      then NIO_Selector_wakeup_callback (emit Fire_wakeup (emit (Ev_loop_oneshot l) w))
      else emit (Ev_loop_oneshot l) w)"
  have mo2: "monitors w2 = monitors w" and ra2: "ready_array w2 = ready_array w"
    by (simp_all add: w2_def wakeup_callback_props(5,6)[of wakeup_of])
  have v2: "\<forall>p\<in>set (fired it). \<exists>m. monitors w2 (fst p) = Some m \<and> selector m"
    using assms(1) by (simp add: mo2)
  have a2: "blk \<noteq> None \<or> ready_array w2 \<noteq> None" using assms(3) by (simp add: ra2)
  from dispatch_monitors[OF v2 assms(2) a2 assms(4)]
  obtain w3 where "dispatch blk (fired it) w2 = (Return (), w3)" by blast
  then show ?thesis by (simp add: engine_iteration_def Let_def w2_def)
qed

lemma select_returns:
  assumes "idle w" and "ev_loop w = Some l"
    and "timeout = None \<or> (\<exists>t. timeout = Some t \<and> 0 \<le> t)"
    and "\<forall>p\<in>set (fired it). \<exists>m. monitors w (fst p) = Some m \<and> selector m"
    and "distinct (map fst (fired it))"
    and "\<forall>f. blk = Some f \<longrightarrow> (\<forall>p\<in>set (fired it). f (fst p) = Visit_returns)"
  shows "\<exists>rv w'. NIO_Selector_select Blocking_region cur timeout blk (it # rest) w
                    = Some (Return (Retval rv), w')"
proof -
  let ?w2 = "w\<lparr>lock := Some cur, lock_holder := Some cur\<rparr>"
  define w3 where "w3 = (if blk = None then ?w2\<lparr>ready_array := Some []\<rparr> else ?w2)"
  define w4 where "w4 = (case timeout of
                           Some t' \<Rightarrow> emit (Ev_timer_again l (bin64 (NUM2DBL t' + bin64 (1 / 10000)))) (w3\<lparr>selecting := 1\<rparr>)
                         | None \<Rightarrow> emit (Ev_timer_stop l) (w3\<lparr>selecting := 1\<rparr>))"
  have p4: "monitors w4 = monitors w" "blk \<noteq> None \<or> ready_array w4 \<noteq> None" "ev_loop w3 = Some l"
    by (simp_all add: w4_def w3_def assms(2) split: option.splits)
  from engine_iteration_returns[of it w4 blk l] assms(4,5,6) p4
  obtain w5 where e: "engine_iteration blk l it w4 = (Return (), w5)" by auto
  then have "run_blocking blk l timeout (it # rest) (w3\<lparr>selecting := 1\<rparr>) = Some (Return (), w5)"
    by (simp add: run_blocking_def Let_def w4_def)
  then have r: "NIO_Selector_run Blocking_region blk timeout (it # rest) w3
              = Some (Return (ready_count w5), w5\<lparr>selecting := 0, ready_count := 0\<rparr>)"
    using p4(3) by (simp add: NIO_Selector_run_def Let_def)
  have "\<exists>v w6. NIO_Selector_select_synchronized Blocking_region blk timeout (it # rest) ?w2
                  = Some (Return v, w6)"
    using r unfolding w3_def NIO_Selector_select_synchronized_def Let_def by simp
  then obtain v w6 where f: "NIO_Selector_select_synchronized Blocking_region blk timeout (it # rest) ?w2
                  = Some (Return v, w6)" by blast
  from select_synchronized_frame[OF f] have l6: "lock w6 = Some cur" by (simp add: run_frame_def)
  from assms(1) have fr: "lock w = None" "lock_holder w \<noteq> Some cur" by (simp_all add: idle_def)
  have "NIO_Selector_synchronize cur (NIO_Selector_select_synchronized Blocking_region blk timeout (it # rest)) w
          = Some (map_outcome Retval (Return v), w6\<lparr>lock_holder := None, lock := None\<rparr>)"
    using synchronize_enter[where func = "NIO_Selector_select_synchronized Blocking_region blk timeout (it # rest)"
            and w = w and cur = cur and out = "Return v" and ?w1.0 = w6] fr f l6
    by simp
  with assms(3) show ?thesis
    by (auto simp: NIO_Selector_select_def map_outcome_def)
qed


end
